theory Spec2Isabelle
  imports Complex_Main "HOL-Library.Sublist" "HOL-Library.Log_Nat"
begin

section \<open>ScriptGrab whisper engine: protocol and orchestration\<close>

text \<open>
  A shallow embedding of \<^verbatim>\<open>src/whisper-engine/protocol.py\<close> and
  \<^verbatim>\<open>src/whisper-engine/engine.py\<close>.

  Conventions of the embedding.
  \<^item> A timestamp or a duration (a Python \<^verbatim>\<open>float\<close>) is modelled by the rational
    number it denotes, and \<^verbatim>\<open>round(x, 3)\<close> and the division by the sample rate
    are exact. In the progress callback, where the value of a float expression
    decides an integer, floats are IEEE 754 doubles: every operation rounds its
    exact result to the nearest double and may give an infinity or a NaN.
    \<^verbatim>\<open>int\<close> is \<open>int\<close>.
  \<^item> A Python \<^verbatim>\<open>str\<close> is a \<open>string\<close> whose characters are read as code points
    below 256.
  \<^item> A dictionary with a fixed set of optional keys is a record of \<open>option\<close> fields;
    \<^verbatim>\<open>d.get(k, default)\<close> is \<open>get_default\<close>.
  \<^item> The process state that the code mutates (the object bound to
    \<^verbatim>\<open>sys.stdout\<close>, and what has been written to the two channels) is a record
    passed explicitly.
  \<^item> The external collaborators (\<^verbatim>\<open>Path.exists\<close>, \<^verbatim>\<open>whisper.load_audio\<close>,
    \<^verbatim>\<open>torch\<close>, \<^verbatim>\<open>whisper.load_model\<close>, \<^verbatim>\<open>whisper.transcribe\<close>) are not
    part of the repository; what each call does in one run is given by a record
    \<open>env\<close>: it returns a value, raises an \<^verbatim>\<open>Exception\<close> with a message, or is
    interrupted by \<^verbatim>\<open>KeyboardInterrupt\<close>. An interrupt is delivered only while
    the process is inside one of these calls, and the calls do not rebind
    \<^verbatim>\<open>sys.stdout\<close> themselves.
  \<^item> A protocol message is the JSON object that \<^verbatim>\<open>json.dumps\<close> serialises; the
    text of the line is not modelled, and writing a line always succeeds.
\<close>

subsection \<open>Python builtins used by the code\<close>

definition get_default :: "'a option \<Rightarrow> 'a \<Rightarrow> 'a" where
  "get_default v d = (case v of None \<Rightarrow> d | Some x \<Rightarrow> x)"

text \<open>\<^verbatim>\<open>str.isspace\<close> on one character with a code point below 256.\<close>

definition is_space :: "char \<Rightarrow> bool" where
  "is_space c =
     (let n = (of_char c :: nat)
      in (9 \<le> n \<and> n \<le> 13) \<or> (28 \<le> n \<and> n \<le> 32) \<or> n = 133 \<or> n = 160)"

text \<open>\<^verbatim>\<open>str.strip()\<close>: leading and trailing whitespace removed.\<close>

definition py_strip :: "string \<Rightarrow> string" where
  "py_strip s = rev (dropWhile is_space (rev (dropWhile is_space s)))"

text \<open>Decimal digits of a natural number, most significant first.\<close>

fun py_digits :: "nat \<Rightarrow> string" where
  "py_digits n =
     (if n < 10 then [char_of (n + 48)]
      else py_digits (n div 10) @ [char_of (n mod 10 + 48)])"

declare py_digits.simps [simp del]

text \<open>\<^verbatim>\<open>str(i)\<close> and the f-string conversion \<^verbatim>\<open>{i}\<close> of an \<^verbatim>\<open>int\<close>.\<close>

definition py_str_int :: "int \<Rightarrow> string" where
  "py_str_int i = (if i < 0 then CHR ''-'' # py_digits (nat (- i)) else py_digits (nat i))"

text \<open>\<^verbatim>\<open>s.zfill\<close>-style left padding with the character 0 up to a width.\<close>

definition zero_pad :: "nat \<Rightarrow> string \<Rightarrow> string" where
  "zero_pad w s = replicate (w - length s) (CHR ''0'') @ s"

text \<open>
  The format specification \<^verbatim>\<open>04d\<close>: sign-aware zero padding to a minimum total
  width of 4.
\<close>

definition format_04d :: "int \<Rightarrow> string" where
  "format_04d i =
     (if i < 0 then CHR ''-'' # zero_pad 3 (py_digits (nat (- i)))
      else zero_pad 4 (py_digits (nat i)))"

text \<open>\<^verbatim>\<open>int(x)\<close> of a float: truncation toward zero.\<close>

definition py_int :: "rat \<Rightarrow> int" where
  "py_int x = (if 0 \<le> x then \<lfloor>x\<rfloor> else \<lceil>x\<rceil>)"

text \<open>Rounding to the nearest integer, ties to the even one.\<close>

definition round_half_even :: "rat \<Rightarrow> int" where
  "round_half_even y =
     (let f = \<lfloor>y\<rfloor>; d = y - of_int f
      in if d < 1 / 2 then f
         else if 1 / 2 < d then f + 1
         else if even f then f else f + 1)"

text \<open>\<^verbatim>\<open>round(x, 3)\<close>.\<close>

definition py_round3 :: "rat \<Rightarrow> rat" where
  "py_round3 x = of_int (round_half_even (x * 1000)) / 1000"

subsection \<open>protocol.py: messages and the emitter\<close>

record word =
  w_word :: string
  w_start :: rat
  w_end :: rat

record segment =
  seg_id :: string
  seg_start :: rat
  seg_end :: rat
  seg_text :: string
  seg_words :: "word list"

text \<open>The four JSON objects of the protocol, by their \<^verbatim>\<open>"type"\<close> field.\<close>

datatype message =
    Progress int string
  | SegmentMsg segment
  | Complete string rat
  | Error string

text \<open>
  \<^verbatim>\<open>sys.stdout\<close> is either the stream the process started with or a
  \<^verbatim>\<open>StderrRedirector\<close>, whose \<^verbatim>\<open>write\<close> forwards to the original
  \<^verbatim>\<open>sys.stderr\<close>.
\<close>

datatype stdout_target = OriginalStdout | StderrRedirector

record process =
  sys_stdout :: stdout_target
  stdout_lines :: "message list"
  stderr_lines :: "message list"

text \<open>
  \<^verbatim>\<open>ProtocolEmitter._emit\<close>: \<^verbatim>\<open>print(json.dumps(message), flush=True)\<close> writes
  one line to whatever \<^verbatim>\<open>sys.stdout\<close> is bound to at that moment.
\<close>

definition emit :: "message \<Rightarrow> process \<Rightarrow> process" where
  "emit m s =
     (case sys_stdout s of
        OriginalStdout \<Rightarrow> s\<lparr>stdout_lines := stdout_lines s @ [m]\<rparr>
      | StderrRedirector \<Rightarrow> s\<lparr>stderr_lines := stderr_lines s @ [m]\<rparr>)"

definition emit_progress :: "int \<Rightarrow> string \<Rightarrow> process \<Rightarrow> process" where
  "emit_progress percent status = emit (Progress (max 0 (min 100 percent)) status)"

definition emit_segment_dict :: "segment \<Rightarrow> process \<Rightarrow> process" where
  "emit_segment_dict segment_dict = emit (SegmentMsg segment_dict)"

definition emit_complete :: "string \<Rightarrow> rat \<Rightarrow> process \<Rightarrow> process" where
  "emit_complete language duration = emit (Complete language (py_round3 duration))"

definition emit_error :: "string \<Rightarrow> process \<Rightarrow> process" where
  "emit_error msg = emit (Error msg)"

subsection \<open>engine.py: format_segment\<close>

text \<open>
  The raw dictionaries returned by whisper-timestamped: every key the code reads
  may be absent.
\<close>

record raw_word =
  rw_text :: "string option"
  rw_start :: "rat option"
  rw_end :: "rat option"

record raw_segment =
  rs_start :: "rat option"
  rs_end :: "rat option"
  rs_text :: "string option"
  rs_words :: "raw_word list option"

definition format_word :: "raw_word \<Rightarrow> word" where
  "format_word word_data =
     \<lparr>w_word = py_strip (get_default (rw_text word_data) []),
      w_start = py_round3 (get_default (rw_start word_data) 0),
      w_end = py_round3 (get_default (rw_end word_data) 0)\<rparr>"

definition format_segment :: "raw_segment \<Rightarrow> int \<Rightarrow> segment" where
  "format_segment segment segment_index =
     (let segment_id = ''seg_'' @ format_04d segment_index;
          words = (case rs_words segment of
                     None \<Rightarrow> []
                   | Some ws \<Rightarrow> map format_word ws)
      in \<lparr>seg_id = segment_id,
          seg_start = py_round3 (get_default (rs_start segment) 0),
          seg_end = py_round3 (get_default (rs_end segment) 0),
          seg_text = py_strip (get_default (rs_text segment) []),
          seg_words = words\<rparr>)"

subsection \<open>engine.py: external calls and get_audio_duration\<close>

datatype 'a outcome = Returns 'a | RaisesException string | RaisesKeyboardInterrupt

text \<open>What propagates out of a block of the code.\<close>

datatype exn = SystemExit int | Exception string | KeyboardInterrupt

record whisper_result =
  language :: "string option"
  segments :: "raw_segment list option"

text \<open>
  One run's external behaviour, in the order the code makes the calls:
  \<^verbatim>\<open>Path(audio_path).exists()\<close>; \<^verbatim>\<open>whisper.load_audio\<close> inside
  \<^verbatim>\<open>get_audio_duration\<close> (the number of samples returned);
  \<^verbatim>\<open>import torch; torch.cuda.is_available()\<close>; \<^verbatim>\<open>whisper.load_model\<close>;
  the second \<^verbatim>\<open>whisper.load_audio\<close>; \<^verbatim>\<open>whisper.transcribe\<close>.
\<close>

record env =
  path_exists :: bool
  probe_audio :: "nat outcome"
  cuda_is_available :: "bool outcome"
  load_model :: "unit outcome"
  load_audio :: "nat outcome"
  transcribe :: "whisper_result outcome"

text \<open>
  \<^verbatim>\<open>get_audio_duration\<close>: \<^verbatim>\<open>len(audio) / 16000.0\<close>, and \<open>0.0\<close> when loading
  raises an \<^verbatim>\<open>Exception\<close>. A \<^verbatim>\<open>KeyboardInterrupt\<close> is not an \<^verbatim>\<open>Exception\<close>
  and propagates.
\<close>

definition get_audio_duration :: "nat outcome \<Rightarrow> exn + rat" where
  "get_audio_duration load =
     (case load of
        Returns n \<Rightarrow> Inr (of_nat n / 16000)
      | RaisesException msg \<Rightarrow> Inr 0
      | RaisesKeyboardInterrupt \<Rightarrow> Inl KeyboardInterrupt)"

definition raise_of :: "'a outcome \<Rightarrow> exn + 'a" where
  "raise_of call =
     (case call of
        Returns v \<Rightarrow> Inr v
      | RaisesException msg \<Rightarrow> Inl (Exception msg)
      | RaisesKeyboardInterrupt \<Rightarrow> Inl KeyboardInterrupt)"

subsection \<open>Python floats in the progress callback\<close>

text \<open>
  A Python \<^verbatim>\<open>float\<close> is an IEEE 754 binary64 value: a finite number, an infinity or
  a NaN. The two zeros are not told apart: no operation the callback performs
  (comparison with 0, division by a positive number, multiplication by 100,
  \<^verbatim>\<open>int\<close>) distinguishes them.
\<close>

datatype pyfloat = Finite rat | PosInf | NegInf | NaN

text \<open>
  The binary exponent of a positive rational: the \<open>e\<close> with
  \<open>2 ^ e \<le> x < 2 ^ (e + 1)\<close>.
\<close>

definition floor_log2 :: "rat \<Rightarrow> int" where
  "floor_log2 x =
     (if 1 \<le> x then bitlen \<lfloor>x\<rfloor> - 1 else - bitlen (\<lceil>1 / x\<rceil> - 1))"

text \<open>
  Rounding of an exact result to binary64, to nearest with ties to even: the
  significand has 53 bits, so the result is a multiple of \<open>2 ^ (e - 52)\<close> where
  \<open>e\<close> is the exponent of the exact value, and not below \<open>- 1022\<close> (subnormal
  numbers); a rounded value of magnitude \<open>2 ^ 1024\<close> or more overflows to an
  infinity.
\<close>

definition round_double :: "rat \<Rightarrow> pyfloat" where
  "round_double x =
     (if x = 0 then Finite 0
      else
        let e = max (- 1022) (floor_log2 \<bar>x\<bar>);
            quantum = 2 powi (e - 52);
            y = of_int (round_half_even (x / quantum)) * quantum
        in if 2 powi 1024 \<le> \<bar>y\<bar> then (if 0 < x then PosInf else NegInf) else Finite y)"

text \<open>Division and multiplication of floats (the divisor is not zero).\<close>

fun float_div :: "pyfloat \<Rightarrow> pyfloat \<Rightarrow> pyfloat" where
  "float_div NaN b = NaN"
| "float_div a NaN = NaN"
| "float_div (Finite x) (Finite y) = round_double (x / y)"
| "float_div (Finite x) b = Finite 0"
| "float_div PosInf (Finite y) = (if 0 < y then PosInf else NegInf)"
| "float_div NegInf (Finite y) = (if 0 < y then NegInf else PosInf)"
| "float_div a b = NaN"

fun float_mul :: "pyfloat \<Rightarrow> pyfloat \<Rightarrow> pyfloat" where
  "float_mul NaN b = NaN"
| "float_mul a NaN = NaN"
| "float_mul (Finite x) (Finite y) = round_double (x * y)"
| "float_mul (Finite x) PosInf = (if x = 0 then NaN else if 0 < x then PosInf else NegInf)"
| "float_mul (Finite x) NegInf = (if x = 0 then NaN else if 0 < x then NegInf else PosInf)"
| "float_mul PosInf (Finite y) = (if y = 0 then NaN else if 0 < y then PosInf else NegInf)"
| "float_mul NegInf (Finite y) = (if y = 0 then NaN else if 0 < y then NegInf else PosInf)"
| "float_mul PosInf PosInf = PosInf"
| "float_mul PosInf NegInf = NegInf"
| "float_mul NegInf PosInf = NegInf"
| "float_mul NegInf NegInf = PosInf"

text \<open>The comparison \<^verbatim>\<open>x > 0\<close>; it is false for a NaN.\<close>

fun float_gt_zero :: "pyfloat \<Rightarrow> bool" where
  "float_gt_zero (Finite x) = (0 < x)"
| "float_gt_zero PosInf = True"
| "float_gt_zero NegInf = False"
| "float_gt_zero NaN = False"

text \<open>\<^verbatim>\<open>a / b\<close> on floats raises \<^verbatim>\<open>ZeroDivisionError\<close> for a zero divisor.\<close>

definition py_truediv :: "pyfloat \<Rightarrow> pyfloat \<Rightarrow> exn + pyfloat" where
  "py_truediv a b =
     (if b = Finite 0 then Inl (Exception ''float division by zero'')
      else Inr (float_div a b))"

text \<open>
  \<^verbatim>\<open>int(x)\<close> of a float truncates toward zero; it raises \<^verbatim>\<open>OverflowError\<close> for an
  infinity and \<^verbatim>\<open>ValueError\<close> for a NaN.
\<close>

fun py_int_of_float :: "pyfloat \<Rightarrow> exn + int" where
  "py_int_of_float (Finite x) = Inr (py_int x)"
| "py_int_of_float PosInf = Inl (Exception ''cannot convert float infinity to integer'')"
| "py_int_of_float NegInf = Inl (Exception ''cannot convert float infinity to integer'')"
| "py_int_of_float NaN = Inl (Exception ''cannot convert float NaN to integer'')"

subsection \<open>engine.py: TranscriptionProgressCallback\<close>

record callback =
  total_duration :: pyfloat
  last_percent :: int

definition callback_init :: "pyfloat \<Rightarrow> callback" where
  "callback_init duration = \<lparr>total_duration = duration, last_percent = 0\<rparr>"

text \<open>
  \<^verbatim>\<open>__call__\<close>: the new state of the callback, or the exception that
  \<^verbatim>\<open>int((current_time / self.total_duration) * 100)\<close> raises, and the process state.
\<close>

definition callback_call ::
  "callback \<Rightarrow> pyfloat \<Rightarrow> process \<Rightarrow> (exn + callback) \<times> process" where
  "callback_call self current_time s =
     (if float_gt_zero (total_duration self) then
        (case py_truediv current_time (total_duration self) of
           Inl x \<Rightarrow> (Inl x, s)
         | Inr ratio \<Rightarrow>
             (case py_int_of_float (float_mul ratio (Finite 100)) of
                Inl x \<Rightarrow> (Inl x, s)
              | Inr percent0 \<Rightarrow>
                  (let percent = min percent0 99
                   in if last_percent self < percent then
                        (Inr (self\<lparr>last_percent := percent\<rparr>),
                         emit_progress percent
                           (''Transcribing... '' @ py_str_int percent @ ''%'') s)
                      else (Inr self, s))))
      else (Inr self, s))"

text \<open>
  The callback invoked once for each value of a position signal, in order, until a
  call raises.
\<close>

fun callback_run ::
  "callback \<Rightarrow> pyfloat list \<Rightarrow> process \<Rightarrow> (exn + callback) \<times> process" where
  "callback_run self [] s = (Inr self, s)"
| "callback_run self (t # ts) s =
     (case callback_call self t s of
        (Inl x, s') \<Rightarrow> (Inl x, s')
      | (Inr self', s') \<Rightarrow> callback_run self' ts s')"

subsection \<open>engine.py: transcribe_audio\<close>

text \<open>
  A library call wrapped in the redirection of \<^verbatim>\<open>sys.stdout\<close>:
  \<^verbatim>\<open>tmp = sys.stdout; sys.stdout = redirector; try: call() finally: sys.stdout = tmp\<close>.
  The \<^verbatim>\<open>finally\<close> clause runs whether the call returns or raises.
\<close>

definition redirected :: "'a outcome \<Rightarrow> process \<Rightarrow> (exn + 'a) \<times> process" where
  "redirected call s =
     (let temp_stdout = sys_stdout s;
          s1 = s\<lparr>sys_stdout := StderrRedirector\<rparr>
      in case raise_of call of
           Inl x \<Rightarrow> (Inl x, s1\<lparr>sys_stdout := temp_stdout\<rparr>)
         | Inr v \<Rightarrow> (Inr v, s1\<lparr>sys_stdout := temp_stdout\<rparr>))"

text \<open>
  \<^verbatim>\<open>device = "cuda" if torch.cuda.is_available() else "cpu"\<close> when no device is
  given.
\<close>

definition resolve_device :: "string option \<Rightarrow> env \<Rightarrow> exn + string" where
  "resolve_device device e =
     (case device of
        Some d \<Rightarrow> Inr d
      | None \<Rightarrow>
          (case raise_of (cuda_is_available e) of
             Inl x \<Rightarrow> Inl x
           | Inr b \<Rightarrow> Inr (if b then ''cuda'' else ''cpu'')))"

text \<open>
  The loop \<^verbatim>\<open>for idx, segment in enumerate(segments)\<close>: one
  \<^verbatim>\<open>emit_segment_dict(format_segment(segment, idx))\<close> for each pair, in order.
\<close>

definition emit_segments :: "raw_segment list \<Rightarrow> process \<Rightarrow> process" where
  "emit_segments segs s =
     foldl (\<lambda>s' (idx, segment). emit_segment_dict (format_segment segment (int idx)) s')
       s (enumerate 0 segs)"

text \<open>
  The body of the \<^verbatim>\<open>try\<close> block of \<^verbatim>\<open>transcribe_audio\<close>: what propagates out
  of it (\<open>None\<close> when it runs to its end) and the process state then.
\<close>

definition transcribe_body ::
  "string \<Rightarrow> string \<Rightarrow> string option \<Rightarrow> env \<Rightarrow> process \<Rightarrow> exn option \<times> process" where
  "transcribe_body audio_path model_size device e s0 =
     (if \<not> path_exists e then
        (Some (SystemExit 1), emit_error (''File not found: '' @ audio_path) s0)
      else
        let s1 = emit_progress 5 ''Loading audio file...'' s0 in
        case get_audio_duration (probe_audio e) of
          Inl x \<Rightarrow> (Some x, s1)
        | Inr duration \<Rightarrow>
            if duration \<le> 0 then
              (Some (SystemExit 1), emit_error ''Could not determine audio duration'' s1)
            else
              let s2 = emit_progress 10 (''Loading Whisper '' @ model_size @ '' model...'') s1 in
              case resolve_device device e of
                Inl x \<Rightarrow> (Some x, s2)
              | Inr dev \<Rightarrow>
                  (case redirected (load_model e) s2 of
                     (Inl x, s3) \<Rightarrow> (Some x, s3)
                   | (Inr model, s3) \<Rightarrow>
                       let s4 = emit_progress 20 ''Model loaded, starting transcription...'' s3 in
                       case raise_of (load_audio e) of
                         Inl x \<Rightarrow> (Some x, s4)
                       | Inr audio \<Rightarrow>
                           (case redirected (transcribe e) s4 of
                              (Inl x, s5) \<Rightarrow> (Some x, s5)
                            | (Inr result, s5) \<Rightarrow>
                                let s6 = emit_progress 90 ''Processing segments...'' s5;
                                    detected_language = get_default (language result) ''unknown'';
                                    segs = get_default (segments result) [];
                                    s7 = emit_segments segs s6;
                                    s8 = emit_progress 100 ''Transcription complete'' s7;
                                    s9 = emit_complete detected_language duration s8
                                in (None, s9))))"

text \<open>
  \<^verbatim>\<open>transcribe_audio\<close>: the \<^verbatim>\<open>try\<close> block with its two handlers. The result is
  the exit code of the process and its final state. \<^verbatim>\<open>SystemExit\<close> is caught by
  neither handler; a normal return ends the process with code 0.
\<close>

definition transcribe_audio ::
  "string \<Rightarrow> string \<Rightarrow> string option \<Rightarrow> env \<Rightarrow> process \<Rightarrow> int \<times> process" where
  "transcribe_audio audio_path model_size device e s0 =
     (case transcribe_body audio_path model_size device e s0 of
        (None, s) \<Rightarrow> (0, s)
      | (Some KeyboardInterrupt, s) \<Rightarrow> (130, emit_error ''Transcription cancelled by user'' s)
      | (Some (Exception msg), s) \<Rightarrow> (1, emit_error msg s)
      | (Some (SystemExit code), s) \<Rightarrow> (code, s))"

text \<open>The state in which \<^verbatim>\<open>main\<close> calls \<^verbatim>\<open>transcribe_audio\<close>.\<close>

definition initial_process :: process where
  "initial_process = \<lparr>sys_stdout = OriginalStdout, stdout_lines = [], stderr_lines = []\<rparr>"

text \<open>The exit code and the protocol stream of a run.\<close>

definition run_exit_code :: "string \<Rightarrow> string \<Rightarrow> string option \<Rightarrow> env \<Rightarrow> int" where
  "run_exit_code audio_path model_size device e =
     fst (transcribe_audio audio_path model_size device e initial_process)"

definition run_output :: "string \<Rightarrow> string \<Rightarrow> string option \<Rightarrow> env \<Rightarrow> message list" where
  "run_output audio_path model_size device e =
     stdout_lines (snd (transcribe_audio audio_path model_size device e initial_process))"

subsection \<open>Observations on a protocol stream\<close>

fun is_complete :: "message \<Rightarrow> bool" where
  "is_complete (Complete l d) = True"
| "is_complete m = False"

fun is_error :: "message \<Rightarrow> bool" where
  "is_error (Error m) = True"
| "is_error m = False"

definition is_terminal :: "message \<Rightarrow> bool" where
  "is_terminal m = (is_complete m \<or> is_error m)"

fun is_segment :: "message \<Rightarrow> bool" where
  "is_segment (SegmentMsg sg) = True"
| "is_segment m = False"

text \<open>The percent values of the Progress messages of a stream, in order.\<close>

fun percents :: "message list \<Rightarrow> int list" where
  "percents [] = []"
| "percents (Progress p st # ms) = p # percents ms"
| "percents (m # ms) = percents ms"

text \<open>The segments carried by the Segment messages of a stream, in order.\<close>

fun segments_of :: "message list \<Rightarrow> segment list" where
  "segments_of [] = []"
| "segments_of (SegmentMsg sg # ms) = sg # segments_of ms"
| "segments_of (m # ms) = segments_of ms"

subsection \<open>Notions used to state the properties\<close>

text \<open>A decimal digit, and the number a string of digits denotes.\<close>

definition is_digit :: "char \<Rightarrow> bool" where
  "is_digit c = (48 \<le> (of_char c :: nat) \<and> (of_char c :: nat) \<le> 57)"

definition digits_value :: "string \<Rightarrow> nat" where
  "digits_value s = foldl (\<lambda>a c. 10 * a + (of_char c - 48)) 0 s"

text \<open>
  \<open>y\<close> has at most three decimal places; \<open>y\<close> is \<open>x\<close> rounded to three
  decimal places (a nearest multiple of \<open>1/1000\<close>).
\<close>

definition is_3dp :: "rat \<Rightarrow> bool" where
  "is_3dp y = (of_int \<lfloor>y * 1000\<rfloor> = y * 1000)"

definition rounded_3dp :: "rat \<Rightarrow> rat \<Rightarrow> bool" where
  "rounded_3dp x y = (is_3dp y \<and> \<bar>y - x\<bar> \<le> 1 / 2000)"

text \<open>
  \<open>t\<close> is \<open>s\<close> trimmed: \<open>s\<close> is \<open>t\<close> between two runs of whitespace, and
  \<open>t\<close> neither starts nor ends with whitespace.
\<close>

definition trimmed_of :: "string \<Rightarrow> string \<Rightarrow> bool" where
  "trimmed_of s t =
     ((\<exists>a \<in> set (prefixes s). \<exists>b \<in> set (suffixes s).
          s = a @ t @ b \<and> list_all is_space a \<and> list_all is_space b) \<and>
      (t = [] \<or> (\<not> is_space (hd t) \<and> \<not> is_space (last t))))"

text \<open>A formatted word against the raw word it comes from.\<close>

definition word_formatted :: "raw_word \<Rightarrow> word \<Rightarrow> bool" where
  "word_formatted rw w =
     (trimmed_of (get_default (rw_text rw) []) (w_word w) \<and>
      rounded_3dp (get_default (rw_start rw) 0) (w_start w) \<and>
      rounded_3dp (get_default (rw_end rw) 0) (w_end w))"

text \<open>
  The Progress Reporter as the specification words it: the percent of a position is
  \<open>floor(current / total * 100)\<close> clamped to \<open>[0, 99]\<close>; a position is reported
  only when its percent strictly exceeds the last emitted one, which it then replaces.
  \<open>spec_reporter total last positions\<close> is the last emitted percent at the end and
  the percents emitted, in order.
\<close>

definition spec_percent :: "rat \<Rightarrow> rat \<Rightarrow> int" where
  "spec_percent total_dur current = max 0 (min 99 \<lfloor>current / total_dur * 100\<rfloor>)"

fun spec_reporter :: "rat \<Rightarrow> int \<Rightarrow> rat list \<Rightarrow> int \<times> int list" where
  "spec_reporter total_dur last_emitted [] = (last_emitted, [])"
| "spec_reporter total_dur last_emitted (current # rest) =
     (let p = spec_percent total_dur current
      in if last_emitted < p then
           (case spec_reporter total_dur p rest of (l, ps) \<Rightarrow> (l, p # ps))
         else spec_reporter total_dur last_emitted rest)"

text \<open>
  The value of \<open>(current / total) * 100\<close> in double arithmetic, when it is a finite
  number; the percent it gives, clamped to \<open>[0, 99]\<close>; and the Progress Reporter of
  the specification with this percent in place of the exact one.
\<close>

definition double_value :: "pyfloat \<Rightarrow> pyfloat \<Rightarrow> rat option" where
  "double_value total_dur current =
     (case py_truediv current total_dur of
        Inl x \<Rightarrow> None
      | Inr ratio \<Rightarrow>
          (case float_mul ratio (Finite 100) of
             Finite v \<Rightarrow> Some v
           | PosInf \<Rightarrow> None
           | NegInf \<Rightarrow> None
           | NaN \<Rightarrow> None))"

definition double_percent :: "pyfloat \<Rightarrow> pyfloat \<Rightarrow> int" where
  "double_percent total_dur current =
     (case double_value total_dur current of
        None \<Rightarrow> 0
      | Some v \<Rightarrow> max 0 (min 99 \<lfloor>v\<rfloor>))"

fun double_reporter :: "pyfloat \<Rightarrow> int \<Rightarrow> pyfloat list \<Rightarrow> int \<times> int list" where
  "double_reporter total_dur last_emitted [] = (last_emitted, [])"
| "double_reporter total_dur last_emitted (current # rest) =
     (let p = double_percent total_dur current
      in if last_emitted < p then
           (case double_reporter total_dur p rest of (l, ps) \<Rightarrow> (l, p # ps))
         else double_reporter total_dur last_emitted rest)"

text \<open>The Progress message the callback emits for a percent.\<close>

definition transcribing_msg :: "int \<Rightarrow> message" where
  "transcribing_msg p = Progress p (''Transcribing... '' @ py_str_int p @ ''%'')"

text \<open>The segments the model returned in a run, and the start time of a raw segment.\<close>

definition result_segments :: "env \<Rightarrow> raw_segment list" where
  "result_segments e =
     (case transcribe e of
        Returns result \<Rightarrow> get_default (segments result) []
      | RaisesException msg \<Rightarrow> []
      | RaisesKeyboardInterrupt \<Rightarrow> [])"

definition raw_start :: "raw_segment \<Rightarrow> rat" where
  "raw_start segment = get_default (rs_start segment) 0"

text \<open>The four stage messages of a run, up to the emission of the segments.\<close>

definition msg_loading_audio :: message where
  "msg_loading_audio = Progress 5 ''Loading audio file...''"

definition msg_loading_model :: "string \<Rightarrow> message" where
  "msg_loading_model model_size = Progress 10 (''Loading Whisper '' @ model_size @ '' model...'')"

definition msg_model_loaded :: message where
  "msg_model_loaded = Progress 20 ''Model loaded, starting transcription...''"

definition msg_processing :: message where
  "msg_processing = Progress 90 ''Processing segments...''"

text \<open>
  The result segments as the loop of \<open>transcribe_audio\<close> formats them: each with its
  position in the list as index, counted from 0.
\<close>

definition formatted_segments :: "raw_segment list \<Rightarrow> segment list" where
  "formatted_segments segs =
     map (\<lambda>(idx, segment). format_segment segment (int idx)) (enumerate 0 segs)"

text \<open>The two messages that end a completed run.\<close>

definition final_messages :: "whisper_result \<Rightarrow> rat \<Rightarrow> message list" where
  "final_messages result duration =
     [Progress 100 ''Transcription complete'',
      Complete (get_default (language result) ''unknown'') (py_round3 duration)]"

text \<open>The process state after the given messages were written to the protocol stream.\<close>

definition with_output :: "message list \<Rightarrow> process" where
  "with_output ms = \<lparr>sys_stdout = OriginalStdout, stdout_lines = ms, stderr_lines = []\<rparr>"

subsection \<open>Example runs\<close>

definition example_word :: raw_word where
  "example_word = \<lparr>rw_text = Some '' hello'', rw_start = Some (1025 / 1024), rw_end = None\<rparr>"

definition example_segment :: "rat \<Rightarrow> raw_segment" where
  "example_segment t =
     \<lparr>rs_start = Some t, rs_end = Some (t + 1025 / 1024), rs_text = Some '' hello '',
      rs_words = Some [example_word]\<rparr>"

text \<open>Every external call succeeds; the model returns the given segments.\<close>

definition env_ok :: "raw_segment list \<Rightarrow> env" where
  "env_ok segs =
     \<lparr>path_exists = True, probe_audio = Returns 160000, cuda_is_available = Returns False,
      load_model = Returns (), load_audio = Returns 160000,
      transcribe = Returns \<lparr>language = Some ''en'', segments = Some segs\<rparr>\<rparr>"

text \<open>The input file is missing; the file exists but cannot be decoded.\<close>

definition env_missing :: env where
  "env_missing = (env_ok [])\<lparr>path_exists := False\<rparr>"

definition env_unreadable :: env where
  "env_unreadable = (env_ok [])\<lparr>probe_audio := RaisesException ''decode failed''\<rparr>"

text \<open>The user interrupts the transcription call.\<close>

definition env_interrupted :: env where
  "env_interrupted = (env_ok [])\<lparr>transcribe := RaisesKeyboardInterrupt\<rparr>"

section \<open>Lemmas about the embedding\<close>

lemma digits_value_snoc: "digits_value (xs @ [c]) = 10 * digits_value xs + (of_char c - 48)"
  by (simp add: digits_value_def)

lemma py_digits_value: "digits_value (py_digits n) = n"
proof (induction n rule: py_digits.induct)
  case (1 n)
  show ?case
  proof (cases "n < 10")
    case True
    then show ?thesis by (subst py_digits.simps) (simp add: digits_value_def)
  next
    case False
    with 1 have "digits_value (py_digits (n div 10)) = n div 10" by simp
    with False show ?thesis
      by (subst py_digits.simps) (simp add: digits_value_snoc)
  qed
qed

lemma py_digits_all_digits: "list_all is_digit (py_digits n)"
proof (induction n rule: py_digits.induct)
  case (1 n)
  show ?case
  proof (cases "n < 10")
    case True
    then show ?thesis by (subst py_digits.simps) (simp add: is_digit_def)
  next
    case False
    with 1 have "list_all is_digit (py_digits (n div 10))" by simp
    moreover have "n mod 10 < 10" by simp
    ultimately show ?thesis using False
      by (subst py_digits.simps) (simp add: is_digit_def)
  qed
qed

lemma py_digits_nonempty: "py_digits n \<noteq> []"
  by (subst py_digits.simps) simp

lemma py_digits_length_1: "n < 10 \<Longrightarrow> length (py_digits n) = 1"
  by (subst py_digits.simps) simp

lemma py_digits_length_2: "n < 100 \<Longrightarrow> length (py_digits n) \<le> 2"
  by (subst py_digits.simps) (simp add: py_digits_length_1)

lemma py_digits_length_3: "n < 1000 \<Longrightarrow> length (py_digits n) \<le> 3"
proof -
  assume "n < 1000"
  then have "n div 10 < 100" by simp
  then have "length (py_digits (n div 10)) \<le> 2" by (rule py_digits_length_2)
  then show ?thesis by (subst py_digits.simps) simp
qed

lemma py_digits_length_4: "n < 10000 \<Longrightarrow> length (py_digits n) \<le> 4"
proof -
  assume "n < 10000"
  then have "n div 10 < 1000" by simp
  then have "length (py_digits (n div 10)) \<le> 3" by (rule py_digits_length_3)
  then show ?thesis by (subst py_digits.simps) simp
qed

lemma digits_value_zeros: "digits_value (replicate k (CHR ''0'') @ s) = digits_value s"
proof -
  have "foldl (\<lambda>a c. 10 * a + (of_char c - 48)) (0::nat) (replicate k (CHR ''0'')) = 0"
    by (induction k) simp_all
  then show ?thesis by (simp add: digits_value_def)
qed

lemma zero_pad_value: "digits_value (zero_pad w s) = digits_value s"
  by (simp add: zero_pad_def digits_value_zeros)

lemma zero_pad_length: "length (zero_pad w s) = max w (length s)"
  by (simp add: zero_pad_def)

lemma zero_pad_all_digits: "list_all is_digit s \<Longrightarrow> list_all is_digit (zero_pad w s)"
  by (auto simp: zero_pad_def is_digit_def list_all_iff)

lemma round_half_even_near: "\<bar>of_int (round_half_even y) - y\<bar> \<le> 1 / 2"
proof -
  define d where "d = y - of_int \<lfloor>y\<rfloor>"
  have d: "0 \<le> d" "d < 1" unfolding d_def by linarith+
  have y: "y = of_int \<lfloor>y\<rfloor> + d" unfolding d_def by simp
  consider "d < 1 / 2" | "1 / 2 < d" | "d = 1 / 2" by linarith
  then show ?thesis
  proof cases
    case 1
    then have "round_half_even y = \<lfloor>y\<rfloor>"
      by (simp add: round_half_even_def Let_def d_def)
    with 1 d show ?thesis unfolding d_def by simp
  next
    case 2
    then have "round_half_even y = \<lfloor>y\<rfloor> + 1"
      by (simp add: round_half_even_def Let_def d_def)
    with 2 d show ?thesis unfolding d_def by simp
  next
    case 3
    then have "round_half_even y = \<lfloor>y\<rfloor> \<or> round_half_even y = \<lfloor>y\<rfloor> + 1"
      by (simp add: round_half_even_def Let_def d_def)
    with 3 show ?thesis unfolding d_def by auto
  qed
qed

lemma round_half_even_mono: "x \<le> y \<Longrightarrow> round_half_even x \<le> round_half_even y"
proof -
  assume xy: "x \<le> y"
  have fx: "of_int \<lfloor>x\<rfloor> \<le> x" "x < of_int \<lfloor>x\<rfloor> + 1" by linarith+
  have fy: "of_int \<lfloor>y\<rfloor> \<le> y" "y < of_int \<lfloor>y\<rfloor> + 1" by linarith+
  have fl: "\<lfloor>x\<rfloor> \<le> \<lfloor>y\<rfloor>" using xy by (rule floor_mono)
  have lo: "\<lfloor>y\<rfloor> \<le> round_half_even y" and hi: "round_half_even x \<le> \<lfloor>x\<rfloor> + 1"
    by (auto simp: round_half_even_def Let_def)
  show ?thesis
  proof (cases "\<lfloor>x\<rfloor> = \<lfloor>y\<rfloor>")
    case True
    with xy show ?thesis by (auto simp: round_half_even_def Let_def)
  next
    case False
    with fl have "\<lfloor>x\<rfloor> + 1 \<le> \<lfloor>y\<rfloor>" by simp
    with lo hi show ?thesis by linarith
  qed
qed

lemma py_round3_is_3dp: "is_3dp (py_round3 x)"
  by (simp add: is_3dp_def py_round3_def)

lemma py_round3_near: "\<bar>py_round3 x - x\<bar> \<le> 1 / 2000"
proof -
  define a where "a = of_int (round_half_even (x * 1000)) - x * 1000"
  have a: "\<bar>a\<bar> \<le> 1 / 2"
    unfolding a_def by (rule round_half_even_near)
  have e: "py_round3 x - x = a / 1000"
    by (simp add: py_round3_def a_def diff_divide_distrib)
  have "\<bar>py_round3 x - x\<bar> = \<bar>a\<bar> / 1000"
    unfolding e by simp
  also have "\<dots> \<le> (1 / 2) / 1000"
    using a by (rule divide_right_mono) simp
  finally show ?thesis by simp
qed

lemma py_round3_rounded: "rounded_3dp x (py_round3 x)"
  unfolding rounded_3dp_def using py_round3_is_3dp py_round3_near by blast

lemma py_round3_mono: "x \<le> y \<Longrightarrow> py_round3 x \<le> py_round3 y"
proof -
  assume "x \<le> y"
  then have "x * 1000 \<le> y * 1000" by simp
  then have "round_half_even (x * 1000) \<le> round_half_even (y * 1000)"
    by (rule round_half_even_mono)
  then show ?thesis by (simp add: py_round3_def divide_right_mono)
qed

lemma py_strip_decomp:
  "\<exists>a b. s = a @ py_strip s @ b \<and> list_all is_space a \<and> list_all is_space b"
proof -
  define u where "u = dropWhile is_space s"
  define a where "a = takeWhile is_space s"
  define b where "b = rev (takeWhile is_space (rev u))"
  have s: "s = a @ u" unfolding a_def u_def by simp
  have "rev u = takeWhile is_space (rev u) @ dropWhile is_space (rev u)" by simp
  then have "rev (rev u) = rev (takeWhile is_space (rev u) @ dropWhile is_space (rev u))"
    by simp
  then have u: "u = py_strip s @ b"
    unfolding b_def py_strip_def u_def by (simp only: rev_rev_ident rev_append)
  have "list_all is_space a"
    unfolding a_def list_all_iff by (auto dest: set_takeWhileD)
  moreover have "list_all is_space b"
    unfolding b_def list_all_iff by (auto dest: set_takeWhileD)
  ultimately show ?thesis using s u by auto
qed

lemma py_strip_ends:
  assumes "py_strip s \<noteq> []"
  shows "\<not> is_space (hd (py_strip s)) \<and> \<not> is_space (last (py_strip s))"
proof -
  define u where "u = dropWhile is_space s"
  define v where "v = dropWhile is_space (rev u)"
  have t: "py_strip s = rev v" unfolding v_def u_def py_strip_def by simp
  with assms have v: "v \<noteq> []" by simp
  then have "\<not> is_space (hd v)" unfolding v_def by (rule hd_dropWhile)
  with v t have l: "\<not> is_space (last (py_strip s))" by (simp add: last_rev)
  obtain b where ub: "u = py_strip s @ b"
  proof -
    have "rev u = takeWhile is_space (rev u) @ v" unfolding v_def by simp
    then have "rev (rev u) = rev (takeWhile is_space (rev u) @ v)" by simp
    then have "u = rev v @ rev (takeWhile is_space (rev u))"
      by (simp only: rev_rev_ident rev_append)
    with t that show ?thesis by simp
  qed
  with assms have "u \<noteq> []" by auto
  then have "\<not> is_space (hd u)" unfolding u_def by (rule hd_dropWhile)
  with ub assms have "\<not> is_space (hd (py_strip s))" by simp
  with l show ?thesis by simp
qed

lemma py_strip_trimmed: "trimmed_of s (py_strip s)"
proof -
  obtain a b where ab: "s = a @ py_strip s @ b" "list_all is_space a" "list_all is_space b"
    using py_strip_decomp by blast
  have "prefix a s" using ab(1) by (metis prefixI)
  then have pa: "a \<in> set (prefixes s)" by (simp only: in_set_prefixes)
  have "suffix b s" using ab(1) by (metis append.assoc suffixI)
  then have sb: "b \<in> set (suffixes s)" by (simp only: in_set_suffixes)
  from pa sb ab have "\<exists>a \<in> set (prefixes s). \<exists>b \<in> set (suffixes s).
          s = a @ py_strip s @ b \<and> list_all is_space a \<and> list_all is_space b"
    by blast
  then show ?thesis
    unfolding trimmed_of_def using py_strip_ends by blast
qed

lemma format_word_formatted: "word_formatted rw (format_word rw)"
  by (simp add: word_formatted_def format_word_def py_strip_trimmed py_round3_rounded)

lemma format_04d_nonneg:
  assumes "0 \<le> i"
  shows "list_all is_digit (format_04d i) \<and> digits_value (format_04d i) = nat i \<and>
         4 \<le> length (format_04d i) \<and> (i < 10000 \<longrightarrow> length (format_04d i) = 4)"
proof -
  have f: "format_04d i = zero_pad 4 (py_digits (nat i))"
    using assms by (simp add: format_04d_def)
  have "i < 10000 \<Longrightarrow> length (py_digits (nat i)) \<le> 4"
    using assms by (intro py_digits_length_4) simp
  then show ?thesis
    unfolding f
    by (auto simp: zero_pad_all_digits py_digits_all_digits zero_pad_value py_digits_value
        zero_pad_length)
qed

lemma format_04d_neg:
  assumes "i < 0"
  shows "\<exists>d. format_04d i = CHR ''-'' # d \<and> list_all is_digit d \<and>
             digits_value d = nat (- i) \<and> 3 \<le> length d"
  using assms
  by (auto simp: format_04d_def zero_pad_all_digits py_digits_all_digits zero_pad_value
      py_digits_value zero_pad_length)

lemma emit_original:
  "sys_stdout s = OriginalStdout \<Longrightarrow> emit m s = s\<lparr>stdout_lines := stdout_lines s @ [m]\<rparr>"
  by (simp add: emit_def)

lemma emit_sys_stdout: "sys_stdout (emit m s) = sys_stdout s"
  by (simp add: emit_def split: stdout_target.split)

lemma redirected_eq: "redirected call s = (raise_of call, s)"
  by (simp add: redirected_def Let_def split: sum.split)

lemma callback_percent:
  assumes "0 \<le> l"
  shows "(l < min (py_int q) 99) = (l < max 0 (min 99 \<lfloor>q\<rfloor>))"
    and "l < min (py_int q) 99 \<Longrightarrow> min (py_int q) 99 = max 0 (min 99 \<lfloor>q\<rfloor>)"
proof -
  have both: "(l < min (py_int q) 99) = (l < max 0 (min 99 \<lfloor>q\<rfloor>)) \<and>
     (l < min (py_int q) 99 \<longrightarrow> min (py_int q) 99 = max 0 (min 99 \<lfloor>q\<rfloor>))"
  proof (cases "0 \<le> q")
    case True
    then have pi: "py_int q = \<lfloor>q\<rfloor>" by (simp add: py_int_def)
    from True have "0 \<le> \<lfloor>q\<rfloor>" by simp
    then show ?thesis unfolding pi by arith
  next
    case False
    then have pi: "py_int q = \<lceil>q\<rceil>" by (simp add: py_int_def)
    have c: "\<lceil>q\<rceil> \<le> 0" using False by (simp add: ceiling_le_zero)
    have f: "\<lfloor>q\<rfloor> \<le> 0" using False by (simp add: floor_le_zero)
    from c f assms show ?thesis unfolding pi by arith
  qed
  from both show "(l < min (py_int q) 99) = (l < max 0 (min 99 \<lfloor>q\<rfloor>))" by blast
  from both show "l < min (py_int q) 99 \<Longrightarrow> min (py_int q) 99 = max 0 (min 99 \<lfloor>q\<rfloor>)"
    by blast
qed

lemma floor_log2_bounds:
  assumes "0 < x"
  shows "2 powi (floor_log2 x) \<le> x \<and> x < 2 powi (floor_log2 x + 1)"
proof (cases "1 \<le> x")
  case True
  define n where "n = \<lfloor>x\<rfloor>"
  define b where "b = bitlen n"
  have n1: "1 \<le> n" using True by (simp add: n_def)
  then have fb: "2 ^ nat (b - 1) \<le> n \<and> n < 2 ^ nat b"
    unfolding b_def by (intro bitlen_bounds) simp
  have b1: "1 \<le> b"
  proof (rule ccontr)
    assume "\<not> 1 \<le> b"
    then have "nat b = 0" by simp
    with fb n1 show False by simp
  qed
  have nx: "of_int n \<le> x" "x < of_int n + 1"
    unfolding n_def by linarith+
  have e: "floor_log2 x = b - 1" using True by (simp add: floor_log2_def n_def b_def)
  have p1: "(2::rat) powi (b - 1) = 2 ^ nat (b - 1)"
    using b1 by (simp add: power_int_nonneg_exp)
  have p2: "(2::rat) powi (b - 1 + 1) = 2 ^ nat b"
    using b1 by (simp add: power_int_nonneg_exp)
  have "(of_int (2 ^ nat (b - 1)) :: rat) \<le> of_int n"
    using fb by (simp only: of_int_le_iff)
  moreover have "(of_int (2 ^ nat (b - 1)) :: rat) = 2 ^ nat (b - 1)" by simp
  ultimately have lo: "(2::rat) ^ nat (b - 1) \<le> x" using nx(1) by linarith
  have "n + 1 \<le> 2 ^ nat b" using fb by simp
  then have "(of_int (n + 1) :: rat) \<le> of_int (2 ^ nat b)"
    by (simp only: of_int_le_iff)
  then have hi: "x < 2 ^ nat b" using nx(2) by simp
  show ?thesis unfolding e p1 p2 using lo hi by simp
next
  case False
  then have x1: "x < 1" by simp
  define c where "c = \<lceil>1 / x\<rceil>"
  define n where "n = c - 1"
  define b where "b = bitlen n"
  have inv: "1 < 1 / x" using assms x1 by simp
  have cx: "of_int c - 1 < 1 / x" "1 / x \<le> of_int c"
    unfolding c_def by linarith+
  have "(1::rat) < of_int c" using inv cx(2) by linarith
  then have c2: "2 \<le> c" by simp
  have n1: "1 \<le> n" using c2 by (simp add: n_def)
  then have fb: "2 ^ nat (b - 1) \<le> n \<and> n < 2 ^ nat b"
    unfolding b_def by (intro bitlen_bounds) simp
  have b1: "1 \<le> b"
  proof (rule ccontr)
    assume "\<not> 1 \<le> b"
    then have "nat b = 0" by simp
    with fb n1 show False by simp
  qed
  have e: "floor_log2 x = - b" using False by (simp add: floor_log2_def n_def b_def c_def)
  have p1: "(2::rat) powi (- b) = 1 / 2 ^ nat b"
    using b1 by (simp add: power_int_minus_divide power_int_nonneg_exp)
  have eq: "- b + 1 = - (b - 1)" by simp
  have nn: "0 \<le> b - 1" using b1 by simp
  have "(2::rat) powi (- (b - 1)) = 1 / 2 powi (b - 1)" by (rule power_int_minus_divide)
  also have "(2::rat) powi (b - 1) = 2 ^ nat (b - 1)" using nn by (rule power_int_nonneg_exp)
  finally have p2: "(2::rat) powi (- b + 1) = 1 / 2 ^ nat (b - 1)" by (simp only: eq)
  have "(of_int (2 ^ nat (b - 1)) :: rat) \<le> of_int n"
    using fb by (simp only: of_int_le_iff)
  then have "(2::rat) ^ nat (b - 1) \<le> of_int c - 1" by (simp add: n_def)
  then have "(2::rat) ^ nat (b - 1) < 1 / x" using cx(1) by linarith
  then have hi: "x < 1 / 2 ^ nat (b - 1)" using assms by (simp add: field_simps)
  have "c \<le> 2 ^ nat b" using fb by (simp add: n_def)
  then have "(of_int c :: rat) \<le> of_int (2 ^ nat b)" by (simp only: of_int_le_iff)
  moreover have "(of_int (2 ^ nat b) :: rat) = 2 ^ nat b" by simp
  ultimately have "1 / x \<le> 2 ^ nat b" using cx(2) by linarith
  then have lo: "1 / 2 ^ nat b \<le> x" using assms by (simp add: field_simps)
  show ?thesis unfolding e p1 p2 using lo hi by simp
qed

lemma floor_log2_unique:
  assumes "2 powi e \<le> x" and "x < 2 powi (e + 1)"
  shows "floor_log2 x = e"
proof -
  have pos: "0 < x"
  proof -
    have "(0::rat) < 2 powi e" by simp
    with assms(1) show ?thesis by linarith
  qed
  define f where "f = floor_log2 x"
  have fb: "2 powi f \<le> x" "x < 2 powi (f + 1)"
    using floor_log2_bounds [OF pos] by (simp_all add: f_def)
  have "\<not> f < e"
  proof
    assume "f < e"
    then have "f + 1 \<le> e" by simp
    then have "(2::rat) powi (f + 1) \<le> 2 powi e" by (intro power_int_increasing) simp_all
    with fb(2) assms(1) show False by linarith
  qed
  moreover have "\<not> e < f"
  proof
    assume "e < f"
    then have "e + 1 \<le> f" by simp
    then have "(2::rat) powi (e + 1) \<le> 2 powi f" by (intro power_int_increasing) simp_all
    with fb(1) assms(2) show False by linarith
  qed
  ultimately show ?thesis by (simp add: f_def)
qed

lemma round_half_even_unique:
  assumes "\<bar>y - of_int m\<bar> < 1 / 2"
  shows "round_half_even y = m"
proof -
  have "\<bar>of_int (round_half_even y) - y\<bar> \<le> 1 / 2" by (rule round_half_even_near)
  with assms have "\<bar>(of_int (round_half_even y) :: rat) - of_int m\<bar> < 1" by linarith
  then have "\<bar>(of_int (round_half_even y - m) :: rat)\<bar> < 1" by simp
  then have "\<bar>round_half_even y - m\<bar> < 1"
    by (metis of_int_abs of_int_less_1_iff)
  then show ?thesis by simp
qed

text \<open>
  A double is recognised by its exponent and its rounded significand: for a value
  in the normal range no search is needed.
\<close>

lemma round_double_eqI:
  assumes e: "2 powi e \<le> \<bar>x\<bar>" "\<bar>x\<bar> < 2 powi (e + 1)"
    and range: "- 1022 \<le> e" "e < 1023"
    and m: "\<bar>x / 2 powi (e - 52) - of_int m\<bar> < 1 / 2"
  shows "round_double x = Finite (of_int m * 2 powi (e - 52))"
proof -
  have "(0::rat) < 2 powi e" by simp
  then have "0 < \<bar>x\<bar>" using e(1) by linarith
  then have x0: "x \<noteq> 0" by auto
  have fl: "floor_log2 \<bar>x\<bar> = e" using e by (rule floor_log2_unique)
  have mx: "max (- 1022) e = e" using range(1) by simp
  have rh: "round_half_even (x / 2 powi (e - 52)) = m" using m by (rule round_half_even_unique)
  define q where "q = (2::rat) powi (e - 52)"
  define P where "P = (2::rat) powi 53"
  have q0: "0 < q" by (simp add: q_def)
  have P: "P = of_int (2 ^ 53)" by (simp add: P_def)
  have "(2::rat) powi (e - 52 + 53) = 2 powi (e - 52) * 2 powi 53"
    by (rule power_int_add) simp
  moreover have "e - 52 + 53 = e + 1" by simp
  ultimately have split: "(2::rat) powi (e + 1) = q * P"
    by (simp only: q_def P_def)
  have "\<bar>x\<bar> < q * P" using e(2) unfolding split .
  then have xq0: "\<bar>x\<bar> / q < P" using q0 by (simp add: field_simps)
  have "\<bar>q\<bar> = q" using q0 by simp
  then have "\<bar>x / q\<bar> = \<bar>x\<bar> / q" by (simp only: abs_divide)
  with xq0 have xq: "\<bar>x / q\<bar> < P" by (simp only:)
  have "\<bar>(of_int m :: rat)\<bar> < P + 1 / 2" using xq m unfolding q_def by linarith
  then have "\<bar>(of_int m :: rat)\<bar> < of_int (2 ^ 53 + 1)" unfolding P by simp
  then have "(of_int \<bar>m\<bar> :: rat) < of_int (2 ^ 53 + 1)" by simp
  then have "\<bar>m\<bar> < 2 ^ 53 + 1" by (simp only: of_int_less_iff)
  then have mb: "\<bar>m\<bar> \<le> 2 ^ 53" by simp
  then have "(of_int \<bar>m\<bar> :: rat) \<le> of_int (2 ^ 53)" by (simp only: of_int_le_iff)
  then have "\<bar>(of_int m :: rat)\<bar> \<le> P" unfolding P by simp
  then have "\<bar>(of_int m :: rat)\<bar> * q \<le> P * q"
    using q0 by (intro mult_right_mono) simp_all
  moreover have "\<bar>of_int m * q\<bar> = \<bar>(of_int m :: rat)\<bar> * q"
    using q0 by (simp add: abs_mult)
  moreover have "P * q = 2 powi (e + 1)" unfolding split by simp
  ultimately have "\<bar>of_int m * q\<bar> \<le> 2 powi (e + 1)" by simp
  also have "(2::rat) powi (e + 1) \<le> 2 powi 1023"
    using range(2) by (intro power_int_increasing) simp_all
  also have "(2::rat) powi 1023 < 2 powi 1024"
    by (intro power_int_strict_increasing) simp_all
  finally have no: "\<not> 2 powi 1024 \<le> \<bar>of_int m * q\<bar>" by simp
  show ?thesis
    using x0 no unfolding round_double_def fl mx Let_def rh q_def by simp
qed

lemma double_value_SomeD:
  assumes "double_value t c = Some v"
  obtains q where "py_truediv c t = Inr q" "float_mul q (Finite 100) = Finite v"
  using assms by (auto simp: double_value_def split: sum.splits pyfloat.splits)

lemma callback_call_unfold:
  assumes "float_gt_zero (total_duration cb)" and "py_truediv c (total_duration cb) = Inr q"
    and "float_mul q (Finite 100) = Finite v"
  shows "callback_call cb c s =
     (if last_percent cb < min (py_int v) 99 then
        (Inr (cb\<lparr>last_percent := min (py_int v) 99\<rparr>),
         emit_progress (min (py_int v) 99)
           (''Transcribing... '' @ py_str_int (min (py_int v) 99) @ ''%'') s)
      else (Inr cb, s))"
  unfolding callback_call_def Let_def
  by (simp only: assms if_True sum.case py_int_of_float.simps)

lemma callback_call_step:
  assumes "float_gt_zero (total_duration cb)" and "0 \<le> last_percent cb"
    and "sys_stdout s = OriginalStdout" and "double_value (total_duration cb) c = Some v"
  shows "callback_call cb c s =
     (let p = double_percent (total_duration cb) c
      in if last_percent cb < p then
           (Inr (cb\<lparr>last_percent := p\<rparr>),
            s\<lparr>stdout_lines := stdout_lines s @ [transcribing_msg p]\<rparr>)
         else (Inr cb, s))"
proof -
  from assms(4) obtain q where q: "py_truediv c (total_duration cb) = Inr q"
    "float_mul q (Finite 100) = Finite v"
    by (rule double_value_SomeD)
  define p where "p = double_percent (total_duration cb) c"
  have p: "p = max 0 (min 99 \<lfloor>v\<rfloor>)" by (simp add: p_def double_percent_def assms(4))
  note cp = callback_percent [OF assms(2), of v]
  note unf = callback_call_unfold [OF assms(1) q, of s]
  show ?thesis
  proof (cases "last_percent cb < min (py_int v) 99")
    case True
    have e: "min (py_int v) 99 = p"
      using cp(2) [OF True] unfolding p .
    have lt: "last_percent cb < p"
      using cp(1) True unfolding p by blast
    have "0 < p" "p \<le> 99" using assms(2) lt p by simp_all
    then have clamp: "max 0 (min 100 p) = p" by simp
    have "callback_call cb c s =
        (Inr (cb\<lparr>last_percent := p\<rparr>),
         emit_progress p (''Transcribing... '' @ py_str_int p @ ''%'') s)"
      unfolding unf using True by (simp only: if_True e)
    also have "emit_progress p (''Transcribing... '' @ py_str_int p @ ''%'') s =
        s\<lparr>stdout_lines := stdout_lines s @ [transcribing_msg p]\<rparr>"
      using assms(3) clamp by (simp add: emit_progress_def emit_original transcribing_msg_def)
    finally show ?thesis using lt by (simp add: p_def Let_def)
  next
    case False
    then have np: "\<not> last_percent cb < p" using cp(1) unfolding p by blast
    have "callback_call cb c s = (Inr cb, s)"
      unfolding unf using False by (simp only: if_False)
    with np show ?thesis by (simp add: p_def Let_def)
  qed
qed

lemma callback_call_raises:
  assumes "float_gt_zero (total_duration cb)" and "double_value (total_duration cb) c = None"
  shows "\<exists>msg. callback_call cb c s = (Inl (Exception msg), s)"
proof -
  have nz: "total_duration cb \<noteq> Finite 0" using assms(1) by auto
  then have d: "py_truediv c (total_duration cb) = Inr (float_div c (total_duration cb))"
    by (simp add: py_truediv_def)
  define v where "v = float_mul (float_div c (total_duration cb)) (Finite 100)"
  have "\<forall>x. v \<noteq> Finite x"
    using assms(2) unfolding double_value_def d v_def by (auto split: pyfloat.splits)
  then have "\<exists>msg. py_int_of_float v = Inl (Exception msg)"
    by (cases v) simp_all
  then obtain msg where
    "py_int_of_float (float_mul (float_div c (total_duration cb)) (Finite 100)) =
       Inl (Exception msg)"
    unfolding v_def by blast
  then have "callback_call cb c s = (Inl (Exception msg), s)"
    unfolding callback_call_def using assms(1) by (simp add: d)
  then show ?thesis by blast
qed

lemma double_percent_nonneg: "0 \<le> double_percent t c"
  by (simp add: double_percent_def split: option.split)

lemma callback_run_double:
  assumes "float_gt_zero (total_duration cb)" and "0 \<le> last_percent cb"
    and "sys_stdout s = OriginalStdout"
    and "list_all (\<lambda>c. double_value (total_duration cb) c \<noteq> None) cs"
  shows "callback_run cb cs s =
     (Inr (cb\<lparr>last_percent := fst (double_reporter (total_duration cb) (last_percent cb) cs)\<rparr>),
      s\<lparr>stdout_lines := stdout_lines s @
           map transcribing_msg
             (snd (double_reporter (total_duration cb) (last_percent cb) cs))\<rparr>)"
  using assms
proof (induction cs arbitrary: cb s)
  case Nil
  then show ?case by simp
next
  case (Cons c cs)
  from Cons.prems(4) obtain v where v: "double_value (total_duration cb) c = Some v"
    and rest: "list_all (\<lambda>c. double_value (total_duration cb) c \<noteq> None) cs"
    by auto
  define p where "p = double_percent (total_duration cb) c"
  note step = callback_call_step [OF Cons.prems(1-3) v]
  show ?case
  proof (cases "last_percent cb < p")
    case True
    define cb' where "cb' = cb\<lparr>last_percent := p\<rparr>"
    define s' where "s' = s\<lparr>stdout_lines := stdout_lines s @ [transcribing_msg p]\<rparr>"
    have st: "callback_call cb c s = (Inr cb', s')"
      using step True by (simp add: p_def cb'_def s'_def Let_def)
    have pre: "float_gt_zero (total_duration cb')" "0 \<le> last_percent cb'"
      "sys_stdout s' = OriginalStdout"
      "list_all (\<lambda>c. double_value (total_duration cb') c \<noteq> None) cs"
      using Cons.prems rest by (simp_all add: cb'_def s'_def p_def double_percent_nonneg)
    have "callback_run cb (c # cs) s = callback_run cb' cs s'"
      using st by simp
    also note Cons.IH [OF pre]
    finally show ?thesis using True
      by (simp add: cb'_def s'_def p_def Let_def split: prod.split)
  next
    case False
    have st: "callback_call cb c s = (Inr cb, s)"
      using step False by (simp add: p_def Let_def)
    have "callback_run cb (c # cs) s = callback_run cb cs s"
      using st by simp
    also note Cons.IH [OF Cons.prems(1-3) rest]
    finally show ?thesis using False
      by (simp add: p_def Let_def)
  qed
qed

lemma callback_run_init:
  assumes "float_gt_zero total_dur" and "sys_stdout s = OriginalStdout"
    and "list_all (\<lambda>c. double_value total_dur c \<noteq> None) positions"
  shows "callback_run (callback_init total_dur) positions s =
     (Inr \<lparr>total_duration = total_dur,
           last_percent = fst (double_reporter total_dur 0 positions)\<rparr>,
      s\<lparr>stdout_lines := stdout_lines s @
           map transcribing_msg (snd (double_reporter total_dur 0 positions))\<rparr>)"
proof -
  have "float_gt_zero (total_duration (callback_init total_dur))"
    "0 \<le> last_percent (callback_init total_dur)"
    "list_all (\<lambda>c. double_value (total_duration (callback_init total_dur)) c \<noteq> None) positions"
    using assms by (simp_all add: callback_init_def)
  from callback_run_double [OF this(1,2) assms(2) this(3)]
  show ?thesis by (simp add: callback_init_def)
qed

text \<open>The double nearest to one tenth.\<close>

lemma round_double_tenth: "round_double (1 / 10) = Finite (3602879701896397 / 2 ^ 55)"
proof -
  have "round_double (1 / 10) = Finite (of_int 7205759403792794 * 2 powi (- 4 - 52))"
    by (rule round_double_eqI) simp_all
  then show ?thesis by simp
qed

text \<open>A result of magnitude \<open>2 ^ 1024\<close> or more overflows.\<close>

lemma round_half_even_of_int: "round_half_even (of_int k) = k"
  by (rule round_half_even_unique [where m = k]) simp

lemma round_double_overflow:
  assumes "2 powi 1024 \<le> x"
  shows "round_double x = PosInf"
proof -
  have "(0::rat) < 2 powi 1024" by simp
  with assms have pos: "0 < x" by linarith
  define f where "f = floor_log2 x"
  have fb: "2 powi f \<le> x" "x < 2 powi (f + 1)"
    using floor_log2_bounds [OF pos] by (simp_all add: f_def)
  have f: "1024 \<le> f"
  proof (rule ccontr)
    assume "\<not> 1024 \<le> f"
    then have "f + 1 \<le> 1024" by simp
    then have "(2::rat) powi (f + 1) \<le> 2 powi 1024"
      by (intro power_int_increasing) simp_all
    with fb(2) assms show False by linarith
  qed
  define q where "q = (2::rat) powi (f - 52)"
  have q0: "0 < q" by (simp add: q_def)
  have "(2::rat) powi (f - 52 + 52) = 2 powi (f - 52) * 2 powi 52"
    by (rule power_int_add) simp
  then have split: "(2::rat) powi f = q * 2 powi 52" by (simp add: q_def)
  have "q * 2 powi 52 \<le> x" using fb(1) unfolding split .
  then have "2 powi 52 \<le> x / q" using q0 by (simp add: field_simps)
  moreover have "(2::rat) powi 52 = of_int (2 ^ 52)" by simp
  ultimately have "of_int (2 ^ 52) \<le> x / q" by (simp only:)
  then have "round_half_even (of_int (2 ^ 52)) \<le> round_half_even (x / q)"
    by (rule round_half_even_mono)
  then have m: "2 ^ 52 \<le> round_half_even (x / q)"
    by (simp only: round_half_even_of_int)
  define y where "y = of_int (round_half_even (x / q)) * q"
  have "(of_int (2 ^ 52) :: rat) \<le> of_int (round_half_even (x / q))"
    using m by (simp only: of_int_le_iff)
  then have "of_int (2 ^ 52) * q \<le> y"
    unfolding y_def using q0 by (intro mult_right_mono) simp_all
  moreover have "of_int (2 ^ 52) * q = 2 powi f" unfolding split by simp
  moreover have "(2::rat) powi 1024 \<le> 2 powi f"
    using f by (intro power_int_increasing) simp_all
  ultimately have big: "2 powi 1024 \<le> y" by linarith
  then have "0 \<le> y" using \<open>(0::rat) < 2 powi 1024\<close> by linarith
  then have ay: "\<bar>y\<bar> = y" by simp
  have mx: "max (- 1022) f = f" using f by simp
  have ax: "\<bar>x\<bar> = x" using pos by simp
  show ?thesis
    unfolding round_double_def ax f_def [symmetric] mx Let_def q_def [symmetric]
      y_def [symmetric] ay
    using pos big by simp
qed

text \<open>
  Beyond the largest double the product is an infinity, and the call raises
  \<^verbatim>\<open>OverflowError\<close> from \<^verbatim>\<open>int\<close>.
\<close>

lemma callback_call_overflow:
  assumes "0 < t" and "round_double (c / t) = Finite a"
    and "round_double (a * 100) = PosInf"
  shows "double_value (Finite t) (Finite c) = None"
    and "callback_call (callback_init (Finite t)) (Finite c) s =
      (Inl (Exception ''cannot convert float infinity to integer''), s)"
proof -
  have d: "py_truediv (Finite c) (Finite t) = Inr (Finite a)"
    using assms(1,2) by (simp add: py_truediv_def)
  show "double_value (Finite t) (Finite c) = None"
    by (simp add: double_value_def d assms(3))
  show "callback_call (callback_init (Finite t)) (Finite c) s =
      (Inl (Exception ''cannot convert float infinity to integer''), s)"
    using assms(1) by (simp add: callback_call_def callback_init_def d assms(3))
qed

lemma callback_overflow_example:
  "double_value (Finite 1) (Finite (2 ^ 1020)) = None"
  "callback_call (callback_init (Finite 1)) (Finite (2 ^ 1020)) s =
     (Inl (Exception ''cannot convert float infinity to integer''), s)"
proof -
  have "round_double (2 ^ 1020 / 1) = Finite (of_int (2 ^ 52) * 2 powi (1020 - 52))"
    by (rule round_double_eqI) simp_all
  then have a: "round_double (2 ^ 1020 / 1) = Finite (2 ^ 1020)" by simp
  have b: "round_double (2 ^ 1020 * 100) = PosInf"
    by (rule round_double_overflow) simp
  have t: "(0::rat) < 1" by simp
  show "double_value (Finite 1) (Finite (2 ^ 1020)) = None"
    by (rule callback_call_overflow(1) [OF t a b])
  show "callback_call (callback_init (Finite 1)) (Finite (2 ^ 1020)) s =
     (Inl (Exception ''cannot convert float infinity to integer''), s)"
    by (rule callback_call_overflow(2) [OF t a b])
qed

lemma double_value_finite:
  assumes "t \<noteq> 0" and "round_double (c / t) = Finite a"
    and "round_double (a * 100) = Finite b"
  shows "double_value (Finite t) (Finite c) = Some b"
  by (simp add: double_value_def py_truediv_def assms)

text \<open>The values of \<open>(current / 100) * 100\<close> in double arithmetic at 29, 58 and 250.\<close>

lemma double_value_29:
  "double_value (Finite 100) (Finite 29) = Some (8162774324609023 / 2 ^ 48)"
proof -
  have "round_double (29 / 100) = Finite (of_int 5224175567749775 * 2 powi (- 2 - 52))"
    by (rule round_double_eqI) simp_all
  then have a: "round_double (29 / 100) = Finite (5224175567749775 / 2 ^ 54)" by simp
  have "round_double (5224175567749775 / 2 ^ 54 * 100) =
      Finite (of_int 8162774324609023 * 2 powi (4 - 52))"
    by (rule round_double_eqI) simp_all
  then have b: "round_double (5224175567749775 / 2 ^ 54 * 100) =
      Finite (8162774324609023 / 2 ^ 48)" by simp
  show ?thesis by (rule double_value_finite [OF _ a b]) simp
qed

lemma double_value_58:
  "double_value (Finite 100) (Finite 58) = Some (8162774324609023 / 2 ^ 47)"
proof -
  have "round_double (58 / 100) = Finite (of_int 5224175567749775 * 2 powi (- 1 - 52))"
    by (rule round_double_eqI) simp_all
  then have a: "round_double (58 / 100) = Finite (5224175567749775 / 2 ^ 53)" by simp
  have "round_double (5224175567749775 / 2 ^ 53 * 100) =
      Finite (of_int 8162774324609023 * 2 powi (5 - 52))"
    by (rule round_double_eqI) simp_all
  then have b: "round_double (5224175567749775 / 2 ^ 53 * 100) =
      Finite (8162774324609023 / 2 ^ 47)" by simp
  show ?thesis by (rule double_value_finite [OF _ a b]) simp
qed

lemma double_value_250:
  "double_value (Finite 100) (Finite 250) = Some 250"
proof -
  have "round_double (250 / 100) = Finite (of_int 5629499534213120 * 2 powi (1 - 52))"
    by (rule round_double_eqI) simp_all
  then have a: "round_double (250 / 100) = Finite (5 / 2)" by simp
  have "round_double (5 / 2 * 100) = Finite (of_int 8796093022208000 * 2 powi (7 - 52))"
    by (rule round_double_eqI) simp_all
  then have b: "round_double (5 / 2 * 100) = Finite 250" by simp
  show ?thesis by (rule double_value_finite [OF _ a b]) simp
qed

lemma double_percent_examples:
  "double_percent (Finite 100) (Finite 29) = 28"
  "double_percent (Finite 100) (Finite 58) = 57"
  "double_percent (Finite 100) (Finite 250) = 99"
proof -
  have "\<lfloor>(8162774324609023 / 2 ^ 48 :: rat)\<rfloor> = 28" by (rule floor_unique) simp_all
  then show "double_percent (Finite 100) (Finite 29) = 28"
    unfolding double_percent_def double_value_29 by simp
  have "\<lfloor>(8162774324609023 / 2 ^ 47 :: rat)\<rfloor> = 57" by (rule floor_unique) simp_all
  then show "double_percent (Finite 100) (Finite 58) = 57"
    unfolding double_percent_def double_value_58 by simp
  show "double_percent (Finite 100) (Finite 250) = 99"
    unfolding double_percent_def double_value_250 by simp
qed

lemma py_digits_hd: "0 < n \<Longrightarrow> hd (py_digits n) \<noteq> CHR ''0''"
proof (induction n rule: py_digits.induct)
  case (1 n)
  show ?case
  proof (cases "n < 10")
    case True
    have "char_of (n + 48) \<noteq> CHR ''0''"
    proof
      assume "char_of (n + 48) = CHR ''0''"
      then have "(of_char (char_of (n + 48)) :: nat) = of_char (CHR ''0'')" by simp
      with True "1.prems" show False by simp
    qed
    with True show ?thesis by (subst py_digits.simps) simp
  next
    case False
    then have "0 < n div 10" by simp
    with False 1 have "hd (py_digits (n div 10)) \<noteq> CHR ''0''" by simp
    with False show ?thesis
      by (subst py_digits.simps) (simp add: py_digits_nonempty)
  qed
qed

lemma py_digits_length_ge_2: "10 \<le> n \<Longrightarrow> 2 \<le> length (py_digits n)"
proof -
  assume "10 \<le> n"
  moreover have "1 \<le> length (py_digits (n div 10))"
    using py_digits_nonempty [of "n div 10"] by (cases "py_digits (n div 10)") simp_all
  ultimately show ?thesis by (subst py_digits.simps) simp
qed

lemma py_digits_length_ge_3: "100 \<le> n \<Longrightarrow> 3 \<le> length (py_digits n)"
proof -
  assume n: "100 \<le> n"
  then have "10 \<le> n div 10" by simp
  then have "2 \<le> length (py_digits (n div 10))" by (rule py_digits_length_ge_2)
  with n show ?thesis by (subst py_digits.simps) simp
qed

lemma py_digits_length_ge_4: "1000 \<le> n \<Longrightarrow> 4 \<le> length (py_digits n)"
proof -
  assume n: "1000 \<le> n"
  then have "100 \<le> n div 10" by simp
  then have "3 \<le> length (py_digits (n div 10))" by (rule py_digits_length_ge_3)
  with n show ?thesis by (subst py_digits.simps) simp
qed

lemma py_digits_length_ge_5: "10000 \<le> n \<Longrightarrow> 5 \<le> length (py_digits n)"
proof -
  assume n: "10000 \<le> n"
  then have "1000 \<le> n div 10" by simp
  then have "4 \<le> length (py_digits (n div 10))" by (rule py_digits_length_ge_4)
  with n show ?thesis by (subst py_digits.simps) simp
qed

lemma zero_pad_id: "w \<le> length s \<Longrightarrow> zero_pad w s = s"
  by (simp add: zero_pad_def)

lemma format_04d_large:
  assumes "10000 \<le> i"
  shows "list_all is_digit (format_04d i) \<and> digits_value (format_04d i) = nat i \<and>
         5 \<le> length (format_04d i) \<and> hd (format_04d i) \<noteq> CHR ''0''"
proof -
  have n: "10000 \<le> nat i" using assms by simp
  then have l: "5 \<le> length (py_digits (nat i))" by (rule py_digits_length_ge_5)
  then have "zero_pad 4 (py_digits (nat i)) = py_digits (nat i)"
    by (intro zero_pad_id) simp
  then have f: "format_04d i = py_digits (nat i)"
    using assms by (simp add: format_04d_def)
  have "hd (py_digits (nat i)) \<noteq> CHR ''0''" using n by (intro py_digits_hd) simp
  with l show ?thesis
    unfolding f by (simp add: py_digits_all_digits py_digits_value)
qed

lemma format_04d_small_neg:
  assumes "- 1000 < i" and "i < 0"
  shows "\<exists>d. format_04d i = CHR ''-'' # d \<and> list_all is_digit d \<and>
             digits_value d = nat (- i) \<and> length d = 3"
proof -
  have "nat (- i) < 1000" using assms by simp
  then have "length (py_digits (nat (- i))) \<le> 3" by (rule py_digits_length_3)
  then have "length (zero_pad 3 (py_digits (nat (- i)))) = 3"
    by (simp add: zero_pad_length)
  then show ?thesis
    using assms
    by (simp add: format_04d_def zero_pad_all_digits py_digits_all_digits zero_pad_value
        py_digits_value)
qed

lemma format_04d_large_neg:
  assumes "i \<le> - 1000"
  shows "\<exists>d. format_04d i = CHR ''-'' # d \<and> list_all is_digit d \<and>
             digits_value d = nat (- i) \<and> 4 \<le> length d \<and> hd d \<noteq> CHR ''0''"
proof -
  have n: "1000 \<le> nat (- i)" using assms by simp
  then have l: "4 \<le> length (py_digits (nat (- i)))" by (rule py_digits_length_ge_4)
  then have "zero_pad 3 (py_digits (nat (- i))) = py_digits (nat (- i))"
    by (intro zero_pad_id) simp
  then have f: "format_04d i = CHR ''-'' # py_digits (nat (- i))"
    using assms by (simp add: format_04d_def)
  have "hd (py_digits (nat (- i))) \<noteq> CHR ''0''" using n by (intro py_digits_hd) simp
  with l show ?thesis
    unfolding f by (simp add: py_digits_all_digits py_digits_value)
qed

lemma digit_chars:
  "char_of (48::nat) = CHR ''0''" "char_of (49::nat) = CHR ''1''"
  "char_of (50::nat) = CHR ''2''" "char_of (51::nat) = CHR ''3''"
  "char_of (52::nat) = CHR ''4''" "char_of (53::nat) = CHR ''5''"
  "char_of (54::nat) = CHR ''6''" "char_of (55::nat) = CHR ''7''"
  "char_of (56::nat) = CHR ''8''" "char_of (57::nat) = CHR ''9''"
  by code_simp+

lemma replicate_small:
  "replicate 1 c = [c]" "replicate 2 c = [c, c]" "replicate 3 c = [c, c, c]"
  by (simp_all add: numeral_2_eq_2 numeral_3_eq_3)

lemmas format_04d_eval =
  format_04d_def zero_pad_def py_digits.simps digit_chars replicate_small

lemma spec_percent_nonneg: "0 \<le> spec_percent t c"
  by (simp add: spec_percent_def)

lemma foldl_emit_original:
  "sys_stdout s = OriginalStdout \<Longrightarrow>
   foldl (\<lambda>s' (idx, segment). emit_segment_dict (format_segment segment (int idx)) s') s xs =
     s\<lparr>stdout_lines := stdout_lines s @
          map SegmentMsg (map (\<lambda>(idx, segment). format_segment segment (int idx)) xs)\<rparr>"
  by (induction xs arbitrary: s)
     (simp_all add: emit_segment_dict_def emit_original split: prod.split)

lemma emit_segments_original:
  "sys_stdout s = OriginalStdout \<Longrightarrow>
   emit_segments segs s =
     s\<lparr>stdout_lines := stdout_lines s @ map SegmentMsg (formatted_segments segs)\<rparr>"
  unfolding emit_segments_def formatted_segments_def by (rule foldl_emit_original)

lemma foldl_emit_sys_stdout:
  "sys_stdout
     (foldl (\<lambda>s' (idx, segment). emit_segment_dict (format_segment segment (int idx)) s') s xs) =
   sys_stdout s"
  by (induction xs arbitrary: s)
     (simp_all add: emit_segment_dict_def emit_sys_stdout split: prod.split)

lemma emit_segments_sys_stdout: "sys_stdout (emit_segments segs s) = sys_stdout s"
  unfolding emit_segments_def by (rule foldl_emit_sys_stdout)

lemmas emitters =
  emit_progress_def emit_error_def emit_complete_def emit_original emit_segments_original

lemma body_not_found:
  "\<not> path_exists e \<Longrightarrow>
   transcribe_body p m d e initial_process =
     (Some (SystemExit 1), with_output [Error (''File not found: '' @ p)])"
  by (simp add: transcribe_body_def emitters initial_process_def with_output_def)

lemma body_probe_interrupted:
  "path_exists e \<Longrightarrow> probe_audio e = RaisesKeyboardInterrupt \<Longrightarrow>
   transcribe_body p m d e initial_process =
     (Some KeyboardInterrupt, with_output [msg_loading_audio])"
  by (simp add: transcribe_body_def emitters initial_process_def with_output_def
      get_audio_duration_def msg_loading_audio_def)

lemma body_no_duration:
  "path_exists e \<Longrightarrow> get_audio_duration (probe_audio e) = Inr duration \<Longrightarrow> duration \<le> 0 \<Longrightarrow>
   transcribe_body p m d e initial_process =
     (Some (SystemExit 1),
      with_output [msg_loading_audio, Error ''Could not determine audio duration''])"
  by (simp add: transcribe_body_def emitters initial_process_def with_output_def
      msg_loading_audio_def)

lemma body_device_failed:
  "path_exists e \<Longrightarrow> get_audio_duration (probe_audio e) = Inr duration \<Longrightarrow> 0 < duration \<Longrightarrow>
   resolve_device d e = Inl x \<Longrightarrow>
   transcribe_body p m d e initial_process =
     (Some x, with_output [msg_loading_audio, msg_loading_model m])"
  by (simp add: transcribe_body_def emitters initial_process_def with_output_def
      msg_loading_audio_def msg_loading_model_def Let_def)

lemma body_load_model_failed:
  "path_exists e \<Longrightarrow> get_audio_duration (probe_audio e) = Inr duration \<Longrightarrow> 0 < duration \<Longrightarrow>
   resolve_device d e = Inr dev \<Longrightarrow> raise_of (load_model e) = Inl x \<Longrightarrow>
   transcribe_body p m d e initial_process =
     (Some x, with_output [msg_loading_audio, msg_loading_model m])"
  by (simp add: transcribe_body_def emitters initial_process_def with_output_def
      msg_loading_audio_def msg_loading_model_def Let_def redirected_eq)

lemma body_load_audio_failed:
  "path_exists e \<Longrightarrow> get_audio_duration (probe_audio e) = Inr duration \<Longrightarrow> 0 < duration \<Longrightarrow>
   resolve_device d e = Inr dev \<Longrightarrow> raise_of (load_model e) = Inr model \<Longrightarrow>
   raise_of (load_audio e) = Inl x \<Longrightarrow>
   transcribe_body p m d e initial_process =
     (Some x, with_output [msg_loading_audio, msg_loading_model m, msg_model_loaded])"
  by (simp add: transcribe_body_def emitters initial_process_def with_output_def
      msg_loading_audio_def msg_loading_model_def msg_model_loaded_def Let_def redirected_eq)

lemma body_transcribe_failed:
  "path_exists e \<Longrightarrow> get_audio_duration (probe_audio e) = Inr duration \<Longrightarrow> 0 < duration \<Longrightarrow>
   resolve_device d e = Inr dev \<Longrightarrow> raise_of (load_model e) = Inr model \<Longrightarrow>
   raise_of (load_audio e) = Inr audio \<Longrightarrow> raise_of (transcribe e) = Inl x \<Longrightarrow>
   transcribe_body p m d e initial_process =
     (Some x, with_output [msg_loading_audio, msg_loading_model m, msg_model_loaded])"
  by (simp add: transcribe_body_def emitters initial_process_def with_output_def
      msg_loading_audio_def msg_loading_model_def msg_model_loaded_def Let_def redirected_eq)

lemma body_complete:
  "path_exists e \<Longrightarrow> get_audio_duration (probe_audio e) = Inr duration \<Longrightarrow> 0 < duration \<Longrightarrow>
   resolve_device d e = Inr dev \<Longrightarrow> raise_of (load_model e) = Inr model \<Longrightarrow>
   raise_of (load_audio e) = Inr audio \<Longrightarrow> raise_of (transcribe e) = Inr result \<Longrightarrow>
   transcribe_body p m d e initial_process =
     (None,
      with_output
        ([msg_loading_audio, msg_loading_model m, msg_model_loaded, msg_processing] @
         map SegmentMsg (formatted_segments (get_default (segments result) [])) @
         final_messages result duration))"
  by (simp add: transcribe_body_def emitters initial_process_def with_output_def
      msg_loading_audio_def msg_loading_model_def msg_model_loaded_def msg_processing_def
      Let_def redirected_eq final_messages_def)

text \<open>every run from the initial state has one of five shapes\<close>

lemma raise_of_cases:
  obtains (ret) v where "raise_of c = Inr v" "c = Returns v"
  | (exc) msg where "raise_of c = Inl (Exception msg)" "c = RaisesException msg"
  | (kbd) "raise_of c = Inl KeyboardInterrupt" "c = RaisesKeyboardInterrupt"
  by (cases c) (auto simp: raise_of_def)

lemma raise_of_not_exit: "raise_of c \<noteq> Inl (SystemExit n)"
  by (cases c) (auto simp: raise_of_def)

lemma resolve_device_not_exit: "resolve_device d e \<noteq> Inl (SystemExit n)"
  by (auto simp: resolve_device_def raise_of_def split: option.splits outcome.splits sum.splits)

lemma get_audio_duration_cases:
  obtains (dur) duration where "get_audio_duration c = Inr duration"
  | (kbd) "get_audio_duration c = Inl KeyboardInterrupt" "c = RaisesKeyboardInterrupt"
proof (cases "get_audio_duration c")
  case (Inl x)
  then have "x = KeyboardInterrupt \<and> c = RaisesKeyboardInterrupt"
    by (cases c) (auto simp: get_audio_duration_def)
  with Inl kbd show ?thesis by blast
next
  case (Inr duration)
  then show ?thesis using dur by blast
qed

lemma body_shape:
  obtains
    (not_found) "\<not> path_exists e"
      "transcribe_body p m d e initial_process =
         (Some (SystemExit 1), with_output [Error (''File not found: '' @ p)])"
  | (no_duration) duration where "path_exists e"
      "get_audio_duration (probe_audio e) = Inr duration" "duration \<le> 0"
      "transcribe_body p m d e initial_process =
         (Some (SystemExit 1),
          with_output [msg_loading_audio, Error ''Could not determine audio duration''])"
  | (raised) x pre where "x = KeyboardInterrupt \<or> (\<exists>msg. x = Exception msg)"
      "pre = [msg_loading_audio] \<or> pre = [msg_loading_audio, msg_loading_model m] \<or>
       pre = [msg_loading_audio, msg_loading_model m, msg_model_loaded]"
      "transcribe_body p m d e initial_process = (Some x, with_output pre)"
  | (complete) result duration where "transcribe e = Returns result" "0 < duration"
      "transcribe_body p m d e initial_process =
         (None,
          with_output
            ([msg_loading_audio, msg_loading_model m, msg_model_loaded, msg_processing] @
             map SegmentMsg (formatted_segments (get_default (segments result) [])) @
             final_messages result duration))"
proof (cases "path_exists e")
  case False
  then show ?thesis using body_not_found not_found by blast
next
  case ex: True
  show ?thesis
  proof (cases "probe_audio e" rule: get_audio_duration_cases)
    case kbd
    then show ?thesis using body_probe_interrupted [OF ex] raised by blast
  next
    case (dur duration)
    show ?thesis
    proof (cases "duration \<le> 0")
      case True
      then show ?thesis using body_no_duration [OF ex dur] no_duration ex dur by blast
    next
      case False
      then have pos: "0 < duration" by simp
      show ?thesis
      proof (cases "resolve_device d e")
        case (Inl x)
        then have "x = KeyboardInterrupt \<or> (\<exists>msg. x = Exception msg)"
          using resolve_device_not_exit [of d e] by (cases x) auto
        then show ?thesis using body_device_failed [OF ex dur pos Inl] raised by blast
      next
        case dev: (Inr dev)
        show ?thesis
        proof (cases "raise_of (load_model e)")
          case (Inl x)
          then have "x = KeyboardInterrupt \<or> (\<exists>msg. x = Exception msg)"
            using raise_of_not_exit [of "load_model e"] by (cases x) auto
          then show ?thesis
            using body_load_model_failed [OF ex dur pos dev Inl] raised by blast
        next
          case model: (Inr model)
          show ?thesis
          proof (cases "raise_of (load_audio e)")
            case (Inl x)
            then have "x = KeyboardInterrupt \<or> (\<exists>msg. x = Exception msg)"
              using raise_of_not_exit [of "load_audio e"] by (cases x) auto
            then show ?thesis
              using body_load_audio_failed [OF ex dur pos dev model Inl] raised by blast
          next
            case audio: (Inr audio)
            show ?thesis
            proof (cases "raise_of (transcribe e)")
              case (Inl x)
              then have "x = KeyboardInterrupt \<or> (\<exists>msg. x = Exception msg)"
                using raise_of_not_exit [of "transcribe e"] by (cases x) auto
              then show ?thesis
                using body_transcribe_failed [OF ex dur pos dev model audio Inl] raised
                by blast
            next
              case (Inr result)
              then have "transcribe e = Returns result"
                by (cases "transcribe e") (auto simp: raise_of_def)
              then show ?thesis
                using body_complete [OF ex dur pos dev model audio Inr] complete pos by blast
            qed
          qed
        qed
      qed
    qed
  qed
qed

lemma percents_append: "percents (xs @ ys) = percents xs @ percents ys"
  by (induction xs rule: percents.induct) simp_all

lemma percents_segments: "percents (map SegmentMsg xs) = []"
  by (induction xs) simp_all

lemma segments_of_append: "segments_of (xs @ ys) = segments_of xs @ segments_of ys"
  by (induction xs rule: segments_of.induct) simp_all

lemma segments_of_segments: "segments_of (map SegmentMsg xs) = xs"
  by (induction xs) simp_all

lemma filter_terminal_segments: "filter is_terminal (map SegmentMsg xs) = []"
  by (induction xs) (simp_all add: is_terminal_def)

lemmas msgs =
  msg_loading_audio_def msg_loading_model_def msg_model_loaded_def msg_processing_def
  final_messages_def

lemma run_of_body:
  "transcribe_body p m d e initial_process = (x, with_output ms) \<Longrightarrow>
   transcribe_audio p m d e initial_process =
     (case x of
        None \<Rightarrow> (0, with_output ms)
      | Some KeyboardInterrupt \<Rightarrow>
          (130, with_output (ms @ [Error ''Transcription cancelled by user'']))
      | Some (Exception msg) \<Rightarrow> (1, with_output (ms @ [Error msg]))
      | Some (SystemExit c) \<Rightarrow> (c, with_output ms))"
  by (simp add: transcribe_audio_def emit_error_def emit_original with_output_def
      split: option.split exn.split)

lemma run_shape:
  obtains
    (not_found) "\<not> path_exists e"
      "fst (transcribe_body p m d e initial_process) = Some (SystemExit 1)"
      "run_exit_code p m d e = 1"
      "run_output p m d e = [Error (''File not found: '' @ p)]"
  | (no_duration) duration where "path_exists e"
      "get_audio_duration (probe_audio e) = Inr duration" "duration \<le> 0"
      "fst (transcribe_body p m d e initial_process) = Some (SystemExit 1)"
      "run_exit_code p m d e = 1"
      "run_output p m d e =
         [msg_loading_audio, Error ''Could not determine audio duration'']"
  | (failed) msg pre where
      "fst (transcribe_body p m d e initial_process) = Some (Exception msg)"
      "run_exit_code p m d e = 1"
      "pre = [msg_loading_audio] \<or> pre = [msg_loading_audio, msg_loading_model m] \<or>
       pre = [msg_loading_audio, msg_loading_model m, msg_model_loaded]"
      "run_output p m d e = pre @ [Error msg]"
  | (cancelled) pre where
      "fst (transcribe_body p m d e initial_process) = Some KeyboardInterrupt"
      "run_exit_code p m d e = 130"
      "pre = [msg_loading_audio] \<or> pre = [msg_loading_audio, msg_loading_model m] \<or>
       pre = [msg_loading_audio, msg_loading_model m, msg_model_loaded]"
      "run_output p m d e = pre @ [Error ''Transcription cancelled by user'']"
  | (complete) result duration where "transcribe e = Returns result" "0 < duration"
      "fst (transcribe_body p m d e initial_process) = None"
      "run_exit_code p m d e = 0"
      "run_output p m d e =
         [msg_loading_audio, msg_loading_model m, msg_model_loaded, msg_processing] @
         map SegmentMsg (formatted_segments (get_default (segments result) [])) @
         final_messages result duration"
proof (cases rule: body_shape [where e = e and p = p and m = m and d = d])
  case not_found
  from run_of_body [OF not_found(2)] not_found show ?thesis
    by (intro that(1)) (simp_all add: run_exit_code_def run_output_def with_output_def)
next
  case (no_duration duration)
  from run_of_body [OF no_duration(4)] no_duration show ?thesis
    by (intro that(2) [of duration])
       (simp_all add: run_exit_code_def run_output_def with_output_def)
next
  case (raised x pre)
  from raised(1) show ?thesis
  proof
    assume x: "x = KeyboardInterrupt"
    from run_of_body [OF raised(3)] raised x show ?thesis
      by (intro that(4) [of pre])
         (simp_all add: run_exit_code_def run_output_def with_output_def)
  next
    assume "\<exists>msg. x = Exception msg"
    then obtain msg where x: "x = Exception msg" by blast
    from run_of_body [OF raised(3)] raised x show ?thesis
      by (intro that(3) [of msg pre])
         (simp_all add: run_exit_code_def run_output_def with_output_def)
  qed
next
  case (complete result duration)
  from run_of_body [OF complete(3)] complete show ?thesis
    by (intro that(5) [of result duration])
       (simp_all add: run_exit_code_def run_output_def with_output_def)
qed

lemma run_env_ok:
  "transcribe_audio p m None (env_ok segs) initial_process =
     (0, with_output
           ([msg_loading_audio, msg_loading_model m, msg_model_loaded, msg_processing] @
            map SegmentMsg (formatted_segments segs) @
            [Progress 100 ''Transcription complete'', Complete ''en'' 10]))"
proof -
  have h: "path_exists (env_ok segs)"
    "get_audio_duration (probe_audio (env_ok segs)) = Inr 10" "(0::rat) < 10"
    "resolve_device None (env_ok segs) = Inr ''cpu''"
    "raise_of (load_model (env_ok segs)) = Inr ()"
    "raise_of (load_audio (env_ok segs)) = Inr 160000"
    "raise_of (transcribe (env_ok segs)) =
       Inr \<lparr>language = Some ''en'', segments = Some segs\<rparr>"
    by (simp_all add: env_ok_def get_audio_duration_def resolve_device_def raise_of_def)
  from run_of_body [OF body_complete [OF h, of p m]] show ?thesis
    by (simp add: final_messages_def get_default_def py_round3_def round_half_even_def)
qed

lemma run_env_interrupted:
  "transcribe_audio p m None env_interrupted initial_process =
     (130, with_output
           [msg_loading_audio, msg_loading_model m, msg_model_loaded,
            Error ''Transcription cancelled by user''])"
proof -
  have h: "path_exists env_interrupted"
    "get_audio_duration (probe_audio env_interrupted) = Inr 10" "(0::rat) < 10"
    "resolve_device None env_interrupted = Inr ''cpu''"
    "raise_of (load_model env_interrupted) = Inr ()"
    "raise_of (load_audio env_interrupted) = Inr 160000"
    "raise_of (transcribe env_interrupted) = Inl KeyboardInterrupt"
    by (simp_all add: env_interrupted_def env_ok_def get_audio_duration_def
        resolve_device_def raise_of_def)
  from run_of_body [OF body_transcribe_failed [OF h, of p m]] show ?thesis
    by simp
qed

lemma run_env_unreadable:
  "transcribe_audio p m None env_unreadable initial_process =
     (1, with_output [msg_loading_audio, Error ''Could not determine audio duration''])"
proof -
  have h: "path_exists env_unreadable"
    "get_audio_duration (probe_audio env_unreadable) = Inr 0" "(0::rat) \<le> 0"
    by (simp_all add: env_unreadable_def env_ok_def get_audio_duration_def)
  from run_of_body [OF body_no_duration [OF h, of p m None]] show ?thesis
    by simp
qed

lemmas example_runs =
  run_exit_code_def run_output_def run_env_ok run_env_interrupted run_env_unreadable
  with_output_def

lemma between_adjacent:
  assumes "[a, b, c, d] @ X = pre @ c # mid @ d # post"
    and "a \<noteq> c" and "b \<noteq> c" and "c \<noteq> d" and "c \<notin> set X" and "d \<notin> set X"
  shows "mid = [] \<and> pre = [a, b]"
proof (cases pre)
  case Nil
  with assms show ?thesis by simp
next
  case p1: (Cons x1 pre1)
  show ?thesis
  proof (cases pre1)
    case Nil
    with p1 assms show ?thesis by simp
  next
    case p2: (Cons x2 pre2)
    show ?thesis
    proof (cases pre2)
      case Nil
      with p1 p2 assms have eq: "d # X = mid @ d # post" by simp
      show ?thesis
      proof (cases mid)
        case Nil
        with \<open>pre2 = []\<close> p1 p2 assms show ?thesis by simp
      next
        case (Cons y mid')
        with eq have "X = mid' @ d # post" by simp
        with assms(6) show ?thesis by simp
      qed
    next
      case p3: (Cons x3 pre3)
      with p1 p2 assms have eq: "d # X = pre3 @ c # mid @ d # post" by simp
      show ?thesis
      proof (cases pre3)
        case Nil
        with eq assms(4) show ?thesis by simp
      next
        case (Cons y pre4)
        with eq have "X = pre4 @ c # mid @ d # post" by simp
        with assms(5) show ?thesis by simp
      qed
    qed
  qed
qed

lemma seg_start_format: "seg_start (format_segment sg i) = py_round3 (raw_start sg)"
  by (simp add: format_segment_def Let_def raw_start_def)

lemma formatted_segments_length: "length (formatted_segments segs) = length segs"
  by (simp add: formatted_segments_def)

lemma formatted_segments_nth:
  "i < length segs \<Longrightarrow> formatted_segments segs ! i = format_segment (segs ! i) (int i)"
  by (simp add: formatted_segments_def nth_enumerate_eq)

lemma formatted_segments_starts:
  "map seg_start (formatted_segments segs) = map (\<lambda>sg. py_round3 (raw_start sg)) segs"
proof (rule nth_equalityI)
  show "length (map seg_start (formatted_segments segs)) =
      length (map (\<lambda>sg. py_round3 (raw_start sg)) segs)"
    by (simp add: formatted_segments_length)
next
  fix i
  assume "i < length (map seg_start (formatted_segments segs))"
  then have i: "i < length segs" by (simp add: formatted_segments_length)
  then show "map seg_start (formatted_segments segs) ! i =
      map (\<lambda>sg. py_round3 (raw_start sg)) segs ! i"
    by (simp add: formatted_segments_length formatted_segments_nth seg_start_format)
qed

lemma sorted_rounded_starts:
  "sorted (map raw_start segs) \<Longrightarrow> sorted (map (\<lambda>sg. py_round3 (raw_start sg)) segs)"
  by (induction segs) (auto intro: py_round3_mono)

lemma result_segments_Returns:
  "transcribe e = Returns result \<Longrightarrow> result_segments e = get_default (segments result) []"
  by (simp add: result_segments_def)

section \<open>The properties\<close>

text \<open>
  \<^bold>\<open>C1\<close> says that the percent values of the Progress messages of a run stay in
  \<open>[0, 99]\<close> until the terminal message. In the run in which every external call
  succeeds, the messages before the terminal \<open>Complete\<close> carry the percents
  5, 10, 20, 90 and 100: \<^verbatim>\<open>emit_progress(100, "Transcription complete")\<close> comes
  before \<^verbatim>\<open>emit_complete\<close>.
\<close>

theorem progress_100_counterexample:
  "percents (butlast (run_output ''a.wav'' ''base'' None (env_ok []))) = [5, 10, 20, 90, 100] \<and>
   is_complete (last (run_output ''a.wav'' ''base'' None (env_ok [])))"
  by (simp add: example_runs msgs formatted_segments_def)

text \<open>
  \<^bold>\<open>C1\<close>, amended. Within a single run the percent values of the emitted Progress
  messages form a non-decreasing sequence bounded in \<open>[0, 100]\<close>. A run that ends
  with \<open>Complete\<close> ends with \<open>Progress(100, "Transcription complete")\<close> directly
  followed by the \<open>Complete\<close> message, and every Progress message before these two
  has a percent of at most 99; in a run that does not end with \<open>Complete\<close> every
  percent is at most 99.
\<close>

theorem progress_percents:
  "sorted (percents (run_output p m d e)) \<and>
   list_all (\<lambda>q. 0 \<le> q \<and> q \<le> 100) (percents (run_output p m d e)) \<and>
   (if is_complete (last (run_output p m d e)) then
      \<exists>pre l dur.
        run_output p m d e = pre @ [Progress 100 ''Transcription complete'', Complete l dur] \<and>
        list_all (\<lambda>q. q \<le> 99) (percents pre)
    else list_all (\<lambda>q. q \<le> 99) (percents (run_output p m d e)))"
proof (cases rule: run_shape [where e = e and p = p and m = m and d = d])
  case not_found
  then show ?thesis by simp
next
  case (no_duration duration)
  then show ?thesis by (simp add: msgs)
next
  case (failed msg pre)
  then show ?thesis by (auto simp: msgs percents_append)
next
  case (cancelled pre)
  then show ?thesis by (auto simp: msgs percents_append)
next
  case (complete result duration)
  define pre where "pre = [msg_loading_audio, msg_loading_model m, msg_model_loaded, msg_processing] @
         map SegmentMsg (formatted_segments (get_default (segments result) []))"
  have out: "run_output p m d e = pre @ [Progress 100 ''Transcription complete'',
       Complete (get_default (language result) ''unknown'') (py_round3 duration)]"
    using complete(5) by (simp add: pre_def final_messages_def)
  have pp: "percents pre = [5, 10, 20, 90]"
    by (simp add: pre_def msgs percents_append percents_segments)
  have "list_all (\<lambda>q. q \<le> 99) (percents pre)" by (simp add: pp)
  with out have ex: "\<exists>pre l dur.
        run_output p m d e = pre @ [Progress 100 ''Transcription complete'', Complete l dur] \<and>
        list_all (\<lambda>q. q \<le> 99) (percents pre)" by blast
  have po: "percents (run_output p m d e) = [5, 10, 20, 90, 100]"
    by (simp add: out percents_append pp)
  have lc: "is_complete (last (run_output p m d e))" by (simp add: out)
  from ex po lc show ?thesis by simp
qed

text \<open>
  The amended property in a run that completes and in a run that is interrupted
  during the transcription call.
\<close>

theorem progress_percents_witness:
  "sorted (percents (run_output ''a.wav'' ''base'' None (env_ok []))) \<and>
   is_complete (last (run_output ''a.wav'' ''base'' None (env_ok []))) \<and>
   (\<exists>pre l dur.
      run_output ''a.wav'' ''base'' None (env_ok []) =
        pre @ [Progress 100 ''Transcription complete'', Complete l dur] \<and>
      list_all (\<lambda>q. q \<le> 99) (percents pre)) \<and>
   \<not> is_complete (last (run_output ''a.wav'' ''base'' None env_interrupted)) \<and>
   list_all (\<lambda>q. q \<le> 99) (percents (run_output ''a.wav'' ''base'' None env_interrupted)) \<and>
   percents (run_output ''a.wav'' ''base'' None env_interrupted) = [5, 10, 20]"
proof -
  have c1: "is_complete (last (run_output ''a.wav'' ''base'' None (env_ok [])))"
    by (simp add: example_runs msgs formatted_segments_def)
  have c2: "\<not> is_complete (last (run_output ''a.wav'' ''base'' None env_interrupted))"
    by (simp add: example_runs msgs)
  have c3: "percents (run_output ''a.wav'' ''base'' None env_interrupted) = [5, 10, 20]"
    by (simp add: example_runs msgs)
  note t1 = progress_percents [of "''a.wav''" "''base''" None "env_ok []"]
  note t2 = progress_percents [of "''a.wav''" "''base''" None env_interrupted]
  from t1 c1 have a: "sorted (percents (run_output ''a.wav'' ''base'' None (env_ok []))) \<and>
     (\<exists>pre l dur.
      run_output ''a.wav'' ''base'' None (env_ok []) =
        pre @ [Progress 100 ''Transcription complete'', Complete l dur] \<and>
      list_all (\<lambda>q. q \<le> 99) (percents pre))"
    by simp
  from t2 c2 have b:
    "list_all (\<lambda>q. q \<le> 99) (percents (run_output ''a.wav'' ''base'' None env_interrupted))"
    by simp
  from a b c1 c2 c3 show ?thesis by blast
qed

text \<open>
  \<^bold>\<open>C2\<close>. In every run exactly one message of the protocol stream is a
  \<open>Complete\<close> or an \<open>Error\<close> message, and it is the last message of the stream.
\<close>

theorem single_terminal_message:
  "length (filter is_terminal (run_output p m d e)) = 1 \<and>
   is_terminal (last (run_output p m d e))"
proof (cases rule: run_shape [where e = e and p = p and m = m and d = d])
  case not_found
  then show ?thesis by (simp add: is_terminal_def)
next
  case (no_duration duration)
  then show ?thesis by (simp add: is_terminal_def msgs)
next
  case (failed msg pre)
  then show ?thesis by (auto simp: is_terminal_def msgs)
next
  case (cancelled pre)
  then show ?thesis by (auto simp: is_terminal_def msgs)
next
  case (complete result duration)
  then show ?thesis by (simp add: is_terminal_def msgs filter_terminal_segments)
qed

text \<open>
  \<^bold>\<open>C3\<close>. In every run: when the body of \<open>transcribe_audio\<close> runs to its end the
  exit code is 0 and the stream ends with \<open>Complete\<close>; when it is left by a
  \<^verbatim>\<open>KeyboardInterrupt\<close> the exit code is 130 and the stream ends with
  \<open>Error "Transcription cancelled by user"\<close>; when it is left by an
  \<^verbatim>\<open>Exception\<close> (a runtime error) the exit code is 1 and the stream ends with an
  \<open>Error\<close> that carries the exception's message; when it is left by
  \<^verbatim>\<open>sys.exit\<close> (a validation error) the code passed is 1, the exit code is 1 and the
  stream ends with an \<open>Error\<close>. The exit code is 0 exactly when the stream ends with
  \<open>Complete\<close>, and it is always one of 0, 1 and 130.
\<close>

theorem exit_codes:
  "(case fst (transcribe_body p m d e initial_process) of
      None \<Rightarrow> run_exit_code p m d e = 0 \<and> is_complete (last (run_output p m d e))
    | Some KeyboardInterrupt \<Rightarrow>
        run_exit_code p m d e = 130 \<and>
        last (run_output p m d e) = Error ''Transcription cancelled by user''
    | Some (Exception msg) \<Rightarrow>
        run_exit_code p m d e = 1 \<and> last (run_output p m d e) = Error msg
    | Some (SystemExit c) \<Rightarrow>
        c = 1 \<and> run_exit_code p m d e = 1 \<and> is_error (last (run_output p m d e))) \<and>
   (run_exit_code p m d e = 0) = is_complete (last (run_output p m d e)) \<and>
   (run_exit_code p m d e = 0 \<or> run_exit_code p m d e = 1 \<or> run_exit_code p m d e = 130)"
proof (cases rule: run_shape [where e = e and p = p and m = m and d = d])
  case not_found
  then show ?thesis by simp
next
  case (no_duration duration)
  then show ?thesis by simp
next
  case (failed msg pre)
  then show ?thesis by simp
next
  case (cancelled pre)
  then show ?thesis by simp
next
  case (complete result duration)
  then show ?thesis by (simp add: msgs)
qed

text \<open>
  The three exit codes in a run that completes, a run interrupted during the
  transcription call and a run on a file that cannot be decoded.
\<close>

theorem exit_codes_witness:
  "run_exit_code ''a.wav'' ''base'' None (env_ok []) = 0 \<and>
   is_complete (last (run_output ''a.wav'' ''base'' None (env_ok []))) \<and>
   run_exit_code ''a.wav'' ''base'' None env_interrupted = 130 \<and>
   last (run_output ''a.wav'' ''base'' None env_interrupted) =
     Error ''Transcription cancelled by user'' \<and>
   run_exit_code ''a.wav'' ''base'' None env_unreadable = 1 \<and>
   is_error (last (run_output ''a.wav'' ''base'' None env_unreadable))"
proof -
  from exit_codes [of "''a.wav''" "''base''" None "env_ok []"]
    exit_codes [of "''a.wav''" "''base''" None env_interrupted]
    exit_codes [of "''a.wav''" "''base''" None env_unreadable]
  show ?thesis by (simp add: example_runs msgs formatted_segments_def)
qed

text \<open>
  \<^bold>\<open>C4\<close>. For every \<open>audio_path\<close> that does not exist, the protocol stream of the
  run is the single message \<open>Error "File not found: <audio_path>"\<close> and the exit
  code is 1.
\<close>

theorem missing_file:
  assumes "\<not> path_exists e"
  shows "run_output p m d e = [Error (''File not found: '' @ p)] \<and> run_exit_code p m d e = 1"
proof -
  from run_of_body [OF body_not_found [OF assms, of p m d]] show ?thesis
    by (simp add: run_exit_code_def run_output_def with_output_def)
qed

text \<open>
  The property for the missing file \<^verbatim>\<open>./nope.wav\<close>.
\<close>

theorem missing_file_witness:
  "\<not> path_exists env_missing \<and>
   run_output ''./nope.wav'' ''base'' None env_missing =
     [Error ''File not found: ./nope.wav''] \<and>
   run_exit_code ''./nope.wav'' ''base'' None env_missing = 1"
proof -
  have h: "\<not> path_exists env_missing" by (simp add: env_missing_def env_ok_def)
  from missing_file [OF h, of "''./nope.wav''" "''base''" None] h show ?thesis by simp
qed

text \<open>
  \<^bold>\<open>C5\<close> says that for every index the id is \<open>seg_\<close> followed by the zero-padded
  4-digit index. The format \<^verbatim>\<open>04d\<close> pads to a minimum width and never truncates:
  at index 10000 the id has five digits.
\<close>

theorem four_digit_id_counterexample:
  "seg_id (format_segment (example_segment 1) 10000) = ''seg_10000''"
  by (simp add: format_segment_def Let_def format_04d_eval)

text \<open>
  \<^bold>\<open>C5\<close>, amended. For every raw segment and every index \<open>i\<close>, \<open>format_segment\<close>
  returns a segment
  \<^item> whose id is \<open>seg_\<close> followed by the index in the format \<^verbatim>\<open>04d\<close>: for
    \<open>0 \<le> i \<le> 9999\<close> the four decimal digits that denote \<open>i\<close>, padded with
    zeros; for \<open>i \<ge> 10000\<close> the decimal digits of \<open>i\<close>, five or more, without a
    leading zero; for \<open>- 999 \<le> i < 0\<close> the sign and the three digits that denote
    \<open>- i\<close>, padded with zeros; for \<open>i \<le> - 1000\<close> the sign and the digits of
    \<open>- i\<close> without a leading zero;
  \<^item> whose start and end are the raw values, or \<open>0\<close> when the field is missing,
    rounded to three decimal places;
  \<^item> whose text is the raw text, or the empty string when it is missing, trimmed;
  \<^item> whose words correspond one to one, in order, to the raw words (none when the
    field is missing), each with its text trimmed and its start and end rounded to
    three decimal places, with the same defaults.
\<close>

theorem format_segment_fields:
  "(0 \<le> i \<and> i < 10000 \<longrightarrow>
      (\<exists>d. seg_id (format_segment segment i) = ''seg_'' @ d \<and> list_all is_digit d \<and>
           digits_value d = nat i \<and> length d = 4)) \<and>
   (10000 \<le> i \<longrightarrow>
      (\<exists>d. seg_id (format_segment segment i) = ''seg_'' @ d \<and> list_all is_digit d \<and>
           digits_value d = nat i \<and> 5 \<le> length d \<and> hd d \<noteq> CHR ''0'')) \<and>
   (- 1000 < i \<and> i < 0 \<longrightarrow>
      (\<exists>d. seg_id (format_segment segment i) = ''seg_-'' @ d \<and> list_all is_digit d \<and>
           digits_value d = nat (- i) \<and> length d = 3)) \<and>
   (i \<le> - 1000 \<longrightarrow>
      (\<exists>d. seg_id (format_segment segment i) = ''seg_-'' @ d \<and> list_all is_digit d \<and>
           digits_value d = nat (- i) \<and> 4 \<le> length d \<and> hd d \<noteq> CHR ''0'')) \<and>
   rounded_3dp (get_default (rs_start segment) 0) (seg_start (format_segment segment i)) \<and>
   rounded_3dp (get_default (rs_end segment) 0) (seg_end (format_segment segment i)) \<and>
   trimmed_of (get_default (rs_text segment) []) (seg_text (format_segment segment i)) \<and>
   list_all2 word_formatted (get_default (rs_words segment) [])
     (seg_words (format_segment segment i))"
proof -
  have id: "seg_id (format_segment segment i) = ''seg_'' @ format_04d i"
    by (simp add: format_segment_def Let_def)
  have small: "0 \<le> i \<and> i < 10000 \<longrightarrow>
      (\<exists>d. seg_id (format_segment segment i) = ''seg_'' @ d \<and> list_all is_digit d \<and>
           digits_value d = nat i \<and> length d = 4)"
    unfolding id using format_04d_nonneg [of i] by blast
  have large: "10000 \<le> i \<longrightarrow>
      (\<exists>d. seg_id (format_segment segment i) = ''seg_'' @ d \<and> list_all is_digit d \<and>
           digits_value d = nat i \<and> 5 \<le> length d \<and> hd d \<noteq> CHR ''0'')"
    unfolding id using format_04d_large [of i] by blast
  have sneg: "- 1000 < i \<and> i < 0 \<longrightarrow>
      (\<exists>d. seg_id (format_segment segment i) = ''seg_-'' @ d \<and> list_all is_digit d \<and>
           digits_value d = nat (- i) \<and> length d = 3)"
    unfolding id using format_04d_small_neg [of i] by auto
  have lneg: "i \<le> - 1000 \<longrightarrow>
      (\<exists>d. seg_id (format_segment segment i) = ''seg_-'' @ d \<and> list_all is_digit d \<and>
           digits_value d = nat (- i) \<and> 4 \<le> length d \<and> hd d \<noteq> CHR ''0'')"
    unfolding id using format_04d_large_neg [of i] by auto
  have st: "rounded_3dp (get_default (rs_start segment) 0) (seg_start (format_segment segment i))"
    by (simp add: format_segment_def Let_def py_round3_rounded)
  have en: "rounded_3dp (get_default (rs_end segment) 0) (seg_end (format_segment segment i))"
    by (simp add: format_segment_def Let_def py_round3_rounded)
  have tx: "trimmed_of (get_default (rs_text segment) []) (seg_text (format_segment segment i))"
    by (simp add: format_segment_def Let_def py_strip_trimmed)
  have "list_all2 word_formatted ws (map format_word ws)" for ws
    by (simp add: list_all2_map2 list_all2_same format_word_formatted)
  then have ws: "list_all2 word_formatted (get_default (rs_words segment) [])
     (seg_words (format_segment segment i))"
    by (simp add: format_segment_def Let_def get_default_def split: option.split)
  from small large sneg lneg st en tx ws show ?thesis by blast
qed

text \<open>
  The amended property at the example segment, with the indices 7, 12345, \<open>- 5\<close>
  and \<open>- 1234\<close>, and the four ids.
\<close>

theorem format_segment_fields_witness:
  "(\<exists>d. seg_id (format_segment (example_segment 1) 7) = ''seg_'' @ d \<and> list_all is_digit d \<and>
        digits_value d = 7 \<and> length d = 4) \<and>
   (\<exists>d. seg_id (format_segment (example_segment 1) 12345) = ''seg_'' @ d \<and>
        list_all is_digit d \<and> digits_value d = 12345 \<and> 5 \<le> length d \<and> hd d \<noteq> CHR ''0'') \<and>
   (\<exists>d. seg_id (format_segment (example_segment 1) (- 5)) = ''seg_-'' @ d \<and>
        list_all is_digit d \<and> digits_value d = 5 \<and> length d = 3) \<and>
   (\<exists>d. seg_id (format_segment (example_segment 1) (- 1234)) = ''seg_-'' @ d \<and>
        list_all is_digit d \<and> digits_value d = 1234 \<and> 4 \<le> length d \<and> hd d \<noteq> CHR ''0'') \<and>
   seg_id (format_segment (example_segment 1) 7) = ''seg_0007'' \<and>
   seg_id (format_segment (example_segment 1) 12345) = ''seg_12345'' \<and>
   seg_id (format_segment (example_segment 1) (- 5)) = ''seg_-005'' \<and>
   seg_id (format_segment (example_segment 1) (- 1234)) = ''seg_-1234''"
proof -
  have a: "\<exists>d. seg_id (format_segment (example_segment 1) 7) = ''seg_'' @ d \<and>
        list_all is_digit d \<and> digits_value d = 7 \<and> length d = 4"
    using format_segment_fields [of 7 "example_segment 1"] by auto
  have b: "\<exists>d. seg_id (format_segment (example_segment 1) 12345) = ''seg_'' @ d \<and>
        list_all is_digit d \<and> digits_value d = 12345 \<and> 5 \<le> length d \<and> hd d \<noteq> CHR ''0''"
    using format_segment_fields [of 12345 "example_segment 1"] by auto
  have c: "\<exists>d. seg_id (format_segment (example_segment 1) (- 5)) = ''seg_-'' @ d \<and>
        list_all is_digit d \<and> digits_value d = 5 \<and> length d = 3"
    using format_segment_fields [of "- 5" "example_segment 1"] by auto
  have d: "\<exists>d. seg_id (format_segment (example_segment 1) (- 1234)) = ''seg_-'' @ d \<and>
        list_all is_digit d \<and> digits_value d = 1234 \<and> 4 \<le> length d \<and> hd d \<noteq> CHR ''0''"
    using format_segment_fields [of "- 1234" "example_segment 1"] by auto
  have e: "seg_id (format_segment (example_segment 1) 7) = ''seg_0007''"
    by (simp add: format_segment_def Let_def format_04d_eval)
  have f: "seg_id (format_segment (example_segment 1) 12345) = ''seg_12345''"
    by (simp add: format_segment_def Let_def format_04d_eval)
  have g: "seg_id (format_segment (example_segment 1) (- 5)) = ''seg_-005''"
    by (simp add: format_segment_def Let_def format_04d_eval)
  have h: "seg_id (format_segment (example_segment 1) (- 1234)) = ''seg_-1234''"
    by (simp add: format_segment_def Let_def format_04d_eval)
  from a b c d e f g h show ?thesis by blast
qed

text \<open>
  \<^bold>\<open>C6\<close> says that the percent is \<open>floor(current / total * 100)\<close>. The callback
  evaluates \<^verbatim>\<open>(current_time / self.total_duration) * 100\<close> in double arithmetic: for
  a total duration of 100 and the position 29 the quotient rounds to a double below
  \<open>0.29\<close>, the product to a double below 29, and the callback emits 28 percent,
  where the exact formula of the specification gives 29.
\<close>

theorem exact_percent_counterexample:
  "callback_run (callback_init (Finite 100)) [Finite 29] initial_process =
     (Inr \<lparr>total_duration = Finite 100, last_percent = 28\<rparr>,
      initial_process\<lparr>stdout_lines := [transcribing_msg 28]\<rparr>) \<and>
   transcribing_msg 28 = Progress 28 ''Transcribing... 28%'' \<and>
   spec_reporter 100 0 [29] = (29, [29])"
proof -
  have h: "float_gt_zero (Finite 100)" "sys_stdout initial_process = OriginalStdout"
    by (simp_all add: initial_process_def)
  have h3: "list_all (\<lambda>c. double_value (Finite 100) c \<noteq> None) [Finite 29]"
    by (simp add: double_value_29 del: not_None_eq)
  have h4: "stdout_lines initial_process = []" by (simp add: initial_process_def)
  have r: "double_reporter (Finite 100) 0 [Finite 29] = (28, [28])"
    by (simp add: double_percent_examples)
  have a: "callback_run (callback_init (Finite 100)) [Finite 29] initial_process =
     (Inr \<lparr>total_duration = Finite 100, last_percent = 28\<rparr>,
      initial_process\<lparr>stdout_lines := [transcribing_msg 28]\<rparr>)"
    by (rule callback_run_init [OF h h3, unfolded r fst_conv snd_conv h4 append_Nil list.map])
  have b: "spec_reporter 100 0 [29] = (29, [29])"
    by (simp add: spec_percent_def)
  have c: "transcribing_msg 28 = Progress 28 ''Transcribing... 28%''"
    by (simp add: transcribing_msg_def py_str_int_def py_digits.simps digit_chars)
  from a b c show ?thesis by blast
qed

text \<open>
  \<^bold>\<open>C6\<close>, amended. For every total duration greater than zero and every sequence
  of positions (increasing or not) for which \<open>(current / total) * 100\<close>, evaluated
  in double arithmetic, is a finite number, a freshly constructed
  \<open>TranscriptionProgressCallback\<close> called on the positions in order behaves as the
  Progress Reporter of the specification with the percent taken from that double
  value: it emits exactly the Progress messages whose percent, the floor of the
  double value clamped to \<open>[0, 99]\<close>, strictly exceeds the last emitted percent,
  and its stored \<open>last_percent\<close> is the last emitted percent (initially \<open>0\<close>).
\<close>

theorem callback_refines_double_reporter:
  assumes "float_gt_zero total_dur" and "sys_stdout s = OriginalStdout"
    and "list_all (\<lambda>c. double_value total_dur c \<noteq> None) positions"
  shows "callback_run (callback_init total_dur) positions s =
     (Inr \<lparr>total_duration = total_dur,
           last_percent = fst (double_reporter total_dur 0 positions)\<rparr>,
      s\<lparr>stdout_lines := stdout_lines s @
           map transcribing_msg (snd (double_reporter total_dur 0 positions))\<rparr>)"
  using assms by (rule callback_run_init)

text \<open>
  The amended property for a total duration of 100 seconds and the positions 29, 58
  and 250: three messages are emitted, for 28, 57 and 99 percent.
\<close>

theorem callback_refines_double_reporter_witness:
  "float_gt_zero (Finite 100) \<and> sys_stdout initial_process = OriginalStdout \<and>
   list_all (\<lambda>c. double_value (Finite 100) c \<noteq> None) [Finite 29, Finite 58, Finite 250] \<and>
   callback_run (callback_init (Finite 100)) [Finite 29, Finite 58, Finite 250] initial_process =
     (Inr \<lparr>total_duration = Finite 100, last_percent = 99\<rparr>,
      initial_process\<lparr>stdout_lines := map transcribing_msg [28, 57, 99]\<rparr>)"
proof -
  have h1: "float_gt_zero (Finite 100)" by simp
  have h2: "sys_stdout initial_process = OriginalStdout" by (simp add: initial_process_def)
  have h3: "list_all (\<lambda>c. double_value (Finite 100) c \<noteq> None)
      [Finite 29, Finite 58, Finite 250]"
    by (simp add: double_value_29 double_value_58 double_value_250 del: not_None_eq)
  have r: "double_reporter (Finite 100) 0 [Finite 29, Finite 58, Finite 250] =
      (99, [28, 57, 99])"
    by (simp add: double_percent_examples)
  have h4: "stdout_lines initial_process = []" by (simp add: initial_process_def)
  note w = callback_refines_double_reporter [OF h1 h2 h3,
      unfolded r fst_conv snd_conv h4 append_Nil]
  from h1 h2 h3 w show ?thesis by blast
qed

text \<open>
  \<^bold>\<open>C7\<close> says that the Segment messages of every run are in non-decreasing start
  order. \<open>transcribe_audio\<close> emits the segments in the order of the model's result
  and does not sort them: when the model returns a segment that starts at 5 seconds
  before one that starts at 1 second, the messages are emitted in that order.
\<close>

theorem segment_order_counterexample:
  "map seg_start
     (segments_of
        (run_output ''a.wav'' ''base'' None (env_ok [example_segment 5, example_segment 1]))) =
     [5, 1] \<and>
   \<not> sorted (map seg_start
     (segments_of
        (run_output ''a.wav'' ''base'' None (env_ok [example_segment 5, example_segment 1]))))"
proof -
  have r: "py_round3 5 = 5" "py_round3 1 = 1"
    by (simp_all add: py_round3_def round_half_even_def)
  have "map seg_start
     (segments_of
        (run_output ''a.wav'' ''base'' None (env_ok [example_segment 5, example_segment 1]))) =
     [5, 1]"
    by (simp add: example_runs msgs segments_of_append segments_of_segments
        formatted_segments_starts raw_start_def example_segment_def get_default_def r)
  then show ?thesis by simp
qed

text \<open>
  \<^bold>\<open>C7\<close>, amended. In every run that completes there is one Segment message per
  result segment, in the order returned by the model: the \<open>i\<close>-th message carries
  \<open>format_segment\<close> of the \<open>i\<close>-th result segment with index \<open>i\<close>. A run
  that does not complete emits no Segment message. The Segment messages are in
  non-decreasing start order whenever the model returns its segments in
  non-decreasing start order.
\<close>

theorem segments_in_model_order:
  "(run_exit_code p m d e = 0 \<longrightarrow>
      length (segments_of (run_output p m d e)) = length (result_segments e) \<and>
      (\<forall>i < length (result_segments e).
         segments_of (run_output p m d e) ! i = format_segment (result_segments e ! i) (int i))) \<and>
   (run_exit_code p m d e \<noteq> 0 \<longrightarrow> segments_of (run_output p m d e) = []) \<and>
   (sorted (map raw_start (result_segments e)) \<longrightarrow>
      sorted (map seg_start (segments_of (run_output p m d e))))"
proof (cases rule: run_shape [where e = e and p = p and m = m and d = d])
  case not_found
  then show ?thesis by simp
next
  case (no_duration duration)
  then show ?thesis by (simp add: msgs)
next
  case (failed msg pre)
  then show ?thesis by (auto simp: msgs)
next
  case (cancelled pre)
  then show ?thesis by (auto simp: msgs)
next
  case (complete result duration)
  have rs: "result_segments e = get_default (segments result) []"
    using complete(1) by (rule result_segments_Returns)
  have so: "segments_of (run_output p m d e) = formatted_segments (result_segments e)"
    by (simp add: complete(5) rs msgs segments_of_append segments_of_segments)
  have a: "length (segments_of (run_output p m d e)) = length (result_segments e)"
    by (simp add: so formatted_segments_length)
  have b: "\<forall>i < length (result_segments e).
         segments_of (run_output p m d e) ! i = format_segment (result_segments e ! i) (int i)"
    by (simp add: so formatted_segments_nth)
  have c: "sorted (map raw_start (result_segments e)) \<longrightarrow>
      sorted (map seg_start (segments_of (run_output p m d e)))"
    by (simp add: so formatted_segments_starts sorted_rounded_starts)
  from a b c complete(4) show ?thesis by simp
qed

text \<open>
  The amended property in a run whose model result is in start order, and in an
  interrupted run.
\<close>

theorem segments_in_model_order_witness:
  "run_exit_code ''a.wav'' ''base'' None (env_ok [example_segment 1, example_segment 5]) = 0 \<and>
   sorted (map raw_start (result_segments (env_ok [example_segment 1, example_segment 5]))) \<and>
   length (segments_of
     (run_output ''a.wav'' ''base'' None (env_ok [example_segment 1, example_segment 5]))) = 2 \<and>
   segments_of
     (run_output ''a.wav'' ''base'' None (env_ok [example_segment 1, example_segment 5])) ! 1 =
     format_segment (example_segment 5) 1 \<and>
   sorted (map seg_start (segments_of
     (run_output ''a.wav'' ''base'' None (env_ok [example_segment 1, example_segment 5])))) \<and>
   run_exit_code ''a.wav'' ''base'' None env_interrupted \<noteq> 0 \<and>
   segments_of (run_output ''a.wav'' ''base'' None env_interrupted) = []"
proof -
  define e where "e = env_ok [example_segment 1, example_segment 5]"
  have h1: "run_exit_code ''a.wav'' ''base'' None e = 0"
    by (simp add: e_def example_runs)
  have rs: "result_segments e = [example_segment 1, example_segment 5]"
    by (simp add: e_def result_segments_def env_ok_def get_default_def)
  have h2: "sorted (map raw_start (result_segments e))"
    by (simp add: rs raw_start_def example_segment_def get_default_def)
  have h3: "run_exit_code ''a.wav'' ''base'' None env_interrupted \<noteq> 0"
    by (simp add: example_runs)
  note t = segments_in_model_order [of "''a.wav''" "''base''" None e]
  note u = segments_in_model_order [of "''a.wav''" "''base''" None env_interrupted]
  from t h1 h2 have
    "length (segments_of (run_output ''a.wav'' ''base'' None e)) = 2"
    "segments_of (run_output ''a.wav'' ''base'' None e) ! 1 =
       format_segment (example_segment 5) 1"
    "sorted (map seg_start (segments_of (run_output ''a.wav'' ''base'' None e)))"
    by (simp_all add: rs)
  moreover from u h3 have "segments_of (run_output ''a.wav'' ''base'' None env_interrupted) = []"
    by simp
  ultimately show ?thesis using h1 h2 h3 unfolding e_def by blast
qed

text \<open>
  \<^bold>\<open>C8\<close>. \<open>get_audio_duration\<close> returns \<open>0.0\<close> when loading the audio raises
  an exception; and for every existing input file whose computed duration is at most
  zero, the run emits \<open>Progress(5, "Loading audio file...")\<close>, then
  \<open>Error "Could not determine audio duration"\<close>, nothing else, and exits with
  code 1.
\<close>

theorem no_duration_error:
  "get_audio_duration (RaisesException msg) = Inr 0 \<and>
   (path_exists e \<and> get_audio_duration (probe_audio e) = Inr duration \<and> duration \<le> 0 \<longrightarrow>
      run_output p m d e =
        [Progress 5 ''Loading audio file...'', Error ''Could not determine audio duration''] \<and>
      run_exit_code p m d e = 1)"
proof -
  have a: "get_audio_duration (RaisesException msg) = Inr 0"
    by (simp add: get_audio_duration_def)
  have b: "run_output p m d e =
        [Progress 5 ''Loading audio file...'', Error ''Could not determine audio duration''] \<and>
      run_exit_code p m d e = 1"
    if h: "path_exists e" "get_audio_duration (probe_audio e) = Inr duration" "duration \<le> 0"
    using run_of_body [OF body_no_duration [OF h, of p m d]]
    by (simp add: run_exit_code_def run_output_def with_output_def msgs)
  from a b show ?thesis by blast
qed

text \<open>
  The property for a file whose decoding raises an exception.
\<close>

theorem no_duration_error_witness:
  "path_exists env_unreadable \<and>
   get_audio_duration (probe_audio env_unreadable) = Inr 0 \<and> (0::rat) \<le> 0 \<and>
   run_output ''a.wav'' ''base'' None env_unreadable =
     [Progress 5 ''Loading audio file...'', Error ''Could not determine audio duration''] \<and>
   run_exit_code ''a.wav'' ''base'' None env_unreadable = 1"
proof -
  have h1: "path_exists env_unreadable" by (simp add: env_unreadable_def env_ok_def)
  have h2: "get_audio_duration (probe_audio env_unreadable) = Inr 0"
    by (simp add: env_unreadable_def env_ok_def get_audio_duration_def)
  from no_duration_error [of "''decode failed''" env_unreadable 0 "''a.wav''" "''base''" None] h1 h2
  show ?thesis by simp
qed

text \<open>
  \<^bold>\<open>C9\<close>. A library call wrapped in the redirection leaves \<^verbatim>\<open>sys.stdout\<close> bound
  to what it was bound to before the call, whether the call returns, raises an
  exception or is interrupted; and so does every run of \<open>transcribe_audio\<close>, from
  any state and on every exit path.
\<close>

theorem stdout_restored:
  "sys_stdout (snd (redirected call s)) = sys_stdout s \<and>
   sys_stdout (snd (transcribe_audio p m d e s0)) = sys_stdout s0"
proof -
  have a: "sys_stdout (snd (redirected call s)) = sys_stdout s"
    by (simp add: redirected_def Let_def split: sum.split)
  have b: "sys_stdout (snd (transcribe_body p m d e s0)) = sys_stdout s0"
    by (simp add: transcribe_body_def Let_def redirected_eq emit_progress_def emit_error_def
        emit_complete_def emit_sys_stdout emit_segments_sys_stdout
        split: sum.split)
  have "sys_stdout (snd (transcribe_audio p m d e s0)) =
        sys_stdout (snd (transcribe_body p m d e s0))"
    by (simp add: transcribe_audio_def emit_error_def emit_sys_stdout
        split: prod.split option.split exn.split)
  with a b show ?thesis by simp
qed

text \<open>
  \<^bold>\<open>C10\<close>. In every run, whenever the protocol stream contains
  \<open>Progress(20, "Model loaded, starting transcription...")\<close> and later
  \<open>Progress(90, "Processing segments...")\<close>, no message lies between the two:
  \<open>transcribe_audio\<close> never constructs or calls a \<open>TranscriptionProgressCallback\<close>.
\<close>

theorem nothing_between_20_and_90:
  assumes "run_output p m d e = pre @ [msg_model_loaded] @ mid @ [msg_processing] @ post"
  shows "mid = []"
proof (cases rule: run_shape [where e = e and p = p and m = m and d = d])
  case not_found
  with assms have "msg_processing \<in> set [Error (''File not found: '' @ p)]" by simp
  then show ?thesis by (simp add: msgs)
next
  case (no_duration duration)
  with assms have "msg_processing \<in>
      set [msg_loading_audio, Error ''Could not determine audio duration'']"
    by simp
  then show ?thesis by (simp add: msgs)
next
  case (failed msg pre')
  with assms have "msg_processing \<in> set (pre' @ [Error msg])" by simp
  with failed(3) show ?thesis by (auto simp: msgs)
next
  case (cancelled pre')
  with assms have "msg_processing \<in> set (pre' @ [Error ''Transcription cancelled by user''])"
    by simp
  with cancelled(3) show ?thesis by (auto simp: msgs)
next
  case (complete result duration)
  define X where "X = map SegmentMsg (formatted_segments (get_default (segments result) [])) @
         final_messages result duration"
  have eq: "[msg_loading_audio, msg_loading_model m, msg_model_loaded, msg_processing] @ X =
      pre @ msg_model_loaded # mid @ msg_processing # post"
    using complete(5) assms by (simp add: X_def)
  have "msg_model_loaded \<notin> set X" "msg_processing \<notin> set X"
    by (auto simp: X_def msgs)
  with between_adjacent [OF eq] show ?thesis by (simp add: msgs)
qed

text \<open>
  A completed run, split at the two messages.
\<close>

theorem nothing_between_20_and_90_witness:
  "run_output ''a.wav'' ''base'' None (env_ok [example_segment 1]) =
     [msg_loading_audio, msg_loading_model ''base''] @ [msg_model_loaded] @ [] @
     [msg_processing] @
     [SegmentMsg (format_segment (example_segment 1) 0),
      Progress 100 ''Transcription complete'', Complete ''en'' 10] \<and>
   ([] :: message list) = []"
proof -
  have h: "run_output ''a.wav'' ''base'' None (env_ok [example_segment 1]) =
     [msg_loading_audio, msg_loading_model ''base''] @ [msg_model_loaded] @ [] @
     [msg_processing] @
     [SegmentMsg (format_segment (example_segment 1) 0),
      Progress 100 ''Transcription complete'', Complete ''en'' 10]"
    by (simp add: example_runs formatted_segments_def enumerate_eq_zip)
  from nothing_between_20_and_90 [OF h] h show ?thesis by blast
qed

end
